theory Spec2Isabelle
  imports Main
begin

section \<open>JavaScript values and string primitives\<close>

text \<open>
  The helpline client is JavaScript. The values that flow through the modelled code are
  \<open>null\<close>, \<open>undefined\<close>, booleans, integral numbers, \<open>NaN\<close> and strings. A string is a
  list of code units, each \<open>char\<close> standing for one unit. A number is a double; the
  numbers of the modelled code are integers, and where the code computes on them the
  result is rounded as a double is (\<open>toDouble\<close>, \<open>js_divide\<close>).
\<close>

datatype jsval = JNull | JUndefined | JBool bool | JNum int | JNaN | JStr string

text \<open>ToBoolean: what \<open>if (v)\<close>, \<open>!v\<close>, \<open>a || b\<close> and \<open>a && b\<close> test.\<close>

fun truthy :: "jsval \<Rightarrow> bool" where
  "truthy JNull = False"
| "truthy JUndefined = False"
| "truthy (JBool b) = b"
| "truthy (JNum n) = (n \<noteq> 0)"
| "truthy JNaN = False"
| "truthy (JStr s) = (s \<noteq> [])"

text \<open>\<open>a || b\<close> yields \<open>a\<close> when it is truthy and \<open>b\<close> otherwise.\<close>

definition js_or :: "jsval \<Rightarrow> jsval \<Rightarrow> jsval" where
  "js_or a b = (if truthy a then a else b)"

text \<open>A nullable string, as \<open>URLSearchParams.get\<close> and \<open>localStorage.getItem\<close> return it.\<close>

definition nullable :: "string option \<Rightarrow> jsval" where
  "nullable x = (case x of None \<Rightarrow> JNull | Some s \<Rightarrow> JStr s)"

text \<open>
  White space and line terminators that \<open>String.prototype.trim\<close> and \<open>parseInt\<close> strip,
  among the code units below 256: TAB, LF, VT, FF, CR, SPACE and NBSP.
\<close>

definition is_space :: "char \<Rightarrow> bool" where
  "is_space c = ((of_char c :: nat) \<in> {9, 10, 11, 12, 13, 32, 160})"

definition trimStart :: "string \<Rightarrow> string" where
  "trimStart s = dropWhile is_space s"

definition trim :: "string \<Rightarrow> string" where
  "trim s = rev (dropWhile is_space (rev (dropWhile is_space s)))"

subsection \<open>Numbers as doubles\<close>

text \<open>
  A JavaScript number is an IEEE double. The code modelled here computes on non-negative
  integers, so a number is a natural number that is a double: every natural below \<open>2^53\<close>,
  and above that those with at most 53 significant bits. Values stay below \<open>2^1024\<close>.
\<close>

text \<open>The number of binary digits.\<close>

fun bitlen :: "nat \<Rightarrow> nat" where
  "bitlen n = (if n = 0 then 0 else Suc (bitlen (n div 2)))"

declare bitlen.simps [simp del]

text \<open>The quotient \<open>a / b\<close> rounded to the nearest integer, a tie going to the even one.\<close>

definition rne_div :: "nat \<Rightarrow> nat \<Rightarrow> nat" where
  "rne_div a b =
     (let q = a div b; r = a mod b
      in if b < 2 * r \<or> (2 * r = b \<and> odd q) then q + 1 else q)"

text \<open>The double nearest to an integer: 53 significant bits, round to nearest, ties to even.\<close>

definition toDouble :: "nat \<Rightarrow> nat" where
  "toDouble y =
     (if bitlen y \<le> 53 then y
      else rne_div y (2 ^ (bitlen y - 53)) * 2 ^ (bitlen y - 53))"

text \<open>
  A quotient is in general not an integer: \<open>(m, e)\<close> stands for the double \<open>m * 2^e\<close>,
  with \<open>m\<close> of 53 bits. \<open>a / b\<close> for positive integer doubles is the exact quotient rounded
  to 53 significant bits: with \<open>d\<close> the difference of the bit lengths the quotient lies
  between \<open>2^(d-1)\<close> and \<open>2^(d+1)\<close>, which fixes the exponent. Division by zero does not
  give a finite number and is not modelled (the code divides by 60).
\<close>

type_synonym double = "nat \<times> int"

definition js_divide :: "nat \<Rightarrow> nat \<Rightarrow> double" where
  "js_divide a b =
     (if a = 0 \<or> b = 0 then (0, 0)
      else
        let d = int (bitlen a) - int (bitlen b);
            e = (if (if 0 \<le> d then b * 2 ^ nat d \<le> a else b \<le> a * 2 ^ nat (- d))
                 then d - 52 else d - 53)
        in if 0 \<le> e then (rne_div a (b * 2 ^ nat e), e)
           else (rne_div (a * 2 ^ nat (- e)) b, e))"

definition Math_floor :: "double \<Rightarrow> nat" where
  "Math_floor x = (case x of (m, e) \<Rightarrow> if 0 \<le> e then m * 2 ^ nat e else m div 2 ^ nat (- e))"

subsection \<open>Number to string and padStart\<close>

definition digit_char :: "nat \<Rightarrow> char" where
  "digit_char d = char_of (48 + d)"

text \<open>The decimal numeral of a natural number.\<close>

fun decimal :: "nat \<Rightarrow> string" where
  "decimal n = (if n < 10 then [digit_char n] else decimal (n div 10) @ [digit_char (n mod 10)])"

declare decimal.simps [simp del]

text \<open>
  \<open>Number.prototype.toString()\<close> on a non-negative integer double \<open>v\<close> prints the decimal
  number with the fewest significant digits that still denotes \<open>v\<close>, that is, whose nearest
  double is \<open>v\<close>; among several with that many digits the one closest to \<open>v\<close>, and of two
  equally close the one whose digit string is even. \<open>candidate v k\<close> is that number for
  \<open>k\<close> significant digits, if there is one: it is the multiple of the matching power of
  ten just below or just above \<open>v\<close>. With as many digits as \<open>v\<close> has, \<open>v\<close> denotes itself.
\<close>

definition candidate :: "nat \<Rightarrow> nat \<Rightarrow> nat option" where
  "candidate v k =
     (let p = 10 ^ (length (decimal v) - k); lo = v div p; a = lo * p; b = (lo + 1) * p
      in if toDouble a = v \<and> toDouble b = v
         then Some (if v - a < b - v then a
                    else if b - v < v - a then b
                    else if even lo then a else b)
         else if toDouble a = v then Some a
         else if toDouble b = v then Some b
         else None)"

definition shortest :: "nat \<Rightarrow> nat" where
  "shortest v =
     (case List.map_filter (candidate v) [1..<length (decimal v)] of
        [] \<Rightarrow> v
      | w # ws \<Rightarrow> w)"

text \<open>
  A number of at most 21 digits is printed in full, a longer one in exponent form:
  the first significant digit, a point and the other significant digits if there are any,
  then \<open>e+\<close> and the decimal exponent.
\<close>

definition strip_zeros :: "string \<Rightarrow> string" where
  "strip_zeros ds = rev (dropWhile (\<lambda>c. c = CHR ''0'') (rev ds))"

definition toString :: "nat \<Rightarrow> string" where
  "toString v =
     (let w = shortest v; ds = decimal w
      in if length ds \<le> 21 then ds
         else (case strip_zeros ds of
                 [] \<Rightarrow> ds
               | c # cs \<Rightarrow>
                   (if cs = [] then [c] else c # CHR ''.'' # cs) @ ''e+''
                     @ decimal (length ds - 1)))"

text \<open>
  \<open>s.padStart(targetLength, padString)\<close>: the pad string is repeated and truncated to the
  missing length; a string already long enough, or an empty pad string, leaves \<open>s\<close> as it is.
\<close>

definition padStart :: "nat \<Rightarrow> string \<Rightarrow> string \<Rightarrow> string" where
  "padStart targetLength padString s =
     (if targetLength \<le> length s \<or> padString = [] then s
      else take (targetLength - length s)
             (concat (replicate (targetLength - length s) padString)) @ s)"

subsection \<open>parseInt\<close>

text \<open>
  \<open>parseInt(string)\<close> without a radix: leading white space is skipped, a sign is read, a
  \<open>0x\<close> or \<open>0X\<close> prefix switches to radix 16, and the longest prefix of digits of the radix
  is converted and rounded to the nearest double. No digit at all gives \<open>NaN\<close>.
\<close>

definition digit_value :: "char \<Rightarrow> nat option" where
  "digit_value c =
     (let k = (of_char c :: nat) in
      if 48 \<le> k \<and> k \<le> 57 then Some (k - 48)
      else if 97 \<le> k \<and> k \<le> 102 then Some (k - 87)
      else if 65 \<le> k \<and> k \<le> 70 then Some (k - 55)
      else None)"

definition is_radix_digit :: "nat \<Rightarrow> char \<Rightarrow> bool" where
  "is_radix_digit R c = (case digit_value c of None \<Rightarrow> False | Some d \<Rightarrow> d < R)"

definition radix_value :: "nat \<Rightarrow> string \<Rightarrow> nat" where
  "radix_value R Z = foldl (\<lambda>acc c. acc * R + (case digit_value c of None \<Rightarrow> 0 | Some d \<Rightarrow> d)) 0 Z"

definition parseDigits :: "int \<Rightarrow> nat \<Rightarrow> string \<Rightarrow> jsval" where
  "parseDigits sign R S =
     (let Z = takeWhile (is_radix_digit R) S in
      if Z = [] then JNaN else JNum (sign * int (toDouble (radix_value R Z))))"

fun stripPrefix :: "int \<Rightarrow> string \<Rightarrow> jsval" where
  "stripPrefix sign (a # b # S) =
     (if a = CHR ''0'' \<and> (b = CHR ''x'' \<or> b = CHR ''X'') then parseDigits sign 16 S
      else parseDigits sign 10 (a # b # S))"
| "stripPrefix sign S = parseDigits sign 10 S"

definition parseInt :: "string \<Rightarrow> jsval" where
  "parseInt string =
     (case trimStart string of
        [] \<Rightarrow> JNaN
      | c # S \<Rightarrow>
          if c = CHR ''-'' then stripPrefix (- 1) S
          else if c = CHR ''+'' then stripPrefix 1 S
          else stripPrefix 1 (c # S))"

section \<open>Duration display\<close>

text \<open>
  \<open>formatDuration\<close> of the call list and the dashboard, and \<open>formatTimerDisplay\<close> of the
  call-logging screen, on a number of seconds that is a non-negative integer.
  \<open>seconds / 60\<close> is the quotient of doubles and \<open>Math.floor\<close> its integer part;
  \<open>seconds % 60\<close> is the exact remainder, as it is on doubles.
\<close>

definition formatDuration :: "nat \<Rightarrow> string" where
  "formatDuration seconds =
     (let mins = Math_floor (js_divide seconds 60); secs = seconds mod 60
      in toString mins @ '':'' @ padStart 2 ''0'' (toString secs))"

definition formatTimerDisplay :: "nat \<Rightarrow> string" where
  "formatTimerDisplay seconds =
     (let mins = Math_floor (js_divide seconds 60); secs = seconds mod 60
      in padStart 2 ''0'' (toString mins) @ '':'' @ padStart 2 ''0'' (toString secs))"

text \<open>
  Reading a display back, used to state the round trip: the decimal value of the text
  before the first colon times 60, plus the decimal value of the text after it.
\<close>

definition decimal_value :: "string \<Rightarrow> nat" where
  "decimal_value s = foldl (\<lambda>acc c. acc * 10 + (of_char c - 48)) 0 s"

definition readDisplay :: "string \<Rightarrow> nat" where
  "readDisplay s =
     decimal_value (takeWhile (\<lambda>c. c \<noteq> CHR '':'') s) * 60
       + decimal_value (drop 1 (dropWhile (\<lambda>c. c \<noteq> CHR '':'') s))"

section \<open>Effects and the remote resource gateway\<close>

text \<open>
  An axios call that fails rejects with an error whose \<open>response\<close> may be missing (a
  network failure); the handlers read \<open>error.response?.status\<close> and
  \<open>error.response?.data?.detail\<close>.
\<close>

record http_error =
  status_code :: "nat option"
  detail :: "string option"

text \<open>\<open>error.response?.data?.detail || fallback\<close>\<close>

definition error_message :: "http_error \<Rightarrow> string \<Rightarrow> string" where
  "error_message error fallback =
     (case detail error of None \<Rightarrow> fallback | Some d \<Rightarrow> if d \<noteq> [] then d else fallback)"

text \<open>The fields of a contact that the modelled handlers read: \<open>id\<close> and \<open>name\<close>.\<close>

record contact =
  id_contact :: jsval
  name_contact :: "string option"

text \<open>The body of \<open>GET /contacts/by-phone/{number}\<close>: \<open>{found, contact}\<close>.\<close>

record lookup =
  found :: bool
  contact :: "contact option"

text \<open>The object literal \<open>callData\<close> posted to \<open>/calls\<close>.\<close>

record call_data =
  caller_number :: string
  duration :: jsval
  call_type :: string
  priority :: string
  status :: string
  notes_sent :: jsval
  resolution_notes :: jsval
  contact_id :: jsval

text \<open>The object literal sent by the follow-up contact update.\<close>

record contact_update =
  name :: jsval
  email :: jsval
  address :: jsval
  company :: jsval

text \<open>The field of the created call record that the flow reads back.\<close>

record call_record =
  contact_id_created :: jsval

text \<open>
  The requests of \<open>lib/api.js\<close> that the modelled flows issue, with what each one carries.
  \<open>PostCalls\<close> has the query parameter \<open>call_event_id\<close> as its second argument.
\<close>

datatype request =
    GetContact string
  | GetContactByPhone string
  | PutContact jsval contact_update
  | PostCalls call_data "string option"
  | PutMarkProcessed string
  | PostResetPassword jsval string

text \<open>
  What a handler does, in order: requests, toasts, \<open>navigate\<close> of the router,
  \<open>console.error\<close>, and the writes of the response interceptor,
  \<open>localStorage.removeItem\<close> and the assignment to \<open>window.location.href\<close>.
\<close>

datatype effect =
    Request request
  | ToastError string
  | ToastSuccess string
  | ToastInfo string
  | Navigate string
  | ConsoleError string
  | RemoveItem string
  | AssignLocation string

text \<open>
  The remote side is a parameter: what it answers to each request, an error (\<open>Inl\<close>) or
  the response data (\<open>Inr\<close>).
\<close>

record server =
  contacts_getById :: "string \<Rightarrow> http_error + contact"
  contacts_getByPhone :: "string \<Rightarrow> http_error + lookup"
  contacts_update :: "jsval \<Rightarrow> contact_update \<Rightarrow> http_error + unit"
  calls_create :: "call_data \<Rightarrow> string option \<Rightarrow> http_error + call_record"
  freepbx_markProcessed :: "string \<Rightarrow> http_error + unit"
  admin_resetPassword :: "jsval \<Rightarrow> string \<Rightarrow> http_error + unit"

text \<open>
  An asynchronous computation is the list of effects it performs, in order, with its
  outcome: a thrown error or a value. \<open>await\<close> is sequencing; a rejected promise skips the
  rest of the enclosing \<open>try\<close> block.
\<close>

type_synonym 'a io = "effect list \<times> (http_error + 'a)"

definition io_return :: "'a \<Rightarrow> 'a io" where
  "io_return x = ([], Inr x)"

definition emit :: "effect \<Rightarrow> unit io" where
  "emit e = ([e], Inr ())"

definition io_bind :: "'a io \<Rightarrow> ('a \<Rightarrow> 'b io) \<Rightarrow> 'b io" where
  "io_bind m f =
     (case m of
        (es, Inl error) \<Rightarrow> (es, Inl error)
      | (es, Inr x) \<Rightarrow> (case f x of (es', r) \<Rightarrow> (es @ es', r)))"

definition try_catch :: "'a io \<Rightarrow> (http_error \<Rightarrow> 'a io) \<Rightarrow> 'a io" where
  "try_catch m handler =
     (case m of
        (es, Inl error) \<Rightarrow> (case handler error of (es', r) \<Rightarrow> (es @ es', r))
      | (es, Inr x) \<Rightarrow> (es, Inr x))"

text \<open>
  Every wrapper of \<open>lib/api.js\<close> used by the handlers goes through the axios instance
  \<open>api\<close>, so a failed request first runs the error handler of the response interceptor,
  which on status 401 removes \<open>token\<close> and \<open>user\<close> and assigns \<open>/login\<close> to the
  location, and then rejects with the same error.
\<close>

definition interceptor_effects :: "http_error \<Rightarrow> effect list" where
  "interceptor_effects error =
     (if status_code error = Some 401
      then [RemoveItem ''token'', RemoveItem ''user'', AssignLocation ''/login'']
      else [])"

definition api_call :: "request \<Rightarrow> (http_error + 'a) \<Rightarrow> 'a io" where
  "api_call r outcome =
     (Request r # (case outcome of Inl error \<Rightarrow> interceptor_effects error | Inr data \<Rightarrow> []),
      outcome)"

text \<open>The wrappers of \<open>contactsAPI\<close>, \<open>callsAPI\<close>, \<open>freepbxAPI\<close> and \<open>adminAPI\<close>.\<close>

definition contactsAPI_getById :: "server \<Rightarrow> string \<Rightarrow> contact io" where
  "contactsAPI_getById net ident = api_call (GetContact ident) (contacts_getById net ident)"

definition contactsAPI_getByPhone :: "server \<Rightarrow> string \<Rightarrow> lookup io" where
  "contactsAPI_getByPhone net phone =
     api_call (GetContactByPhone phone) (contacts_getByPhone net phone)"

definition contactsAPI_update :: "server \<Rightarrow> jsval \<Rightarrow> contact_update \<Rightarrow> unit io" where
  "contactsAPI_update net ident data =
     api_call (PutContact ident data) (contacts_update net ident data)"

text \<open>
  \<open>callsAPI.create(data, callEventId = null)\<close> sends the query parameter only for a truthy
  event id: \<open>callEventId ? { call_event_id: callEventId } : {}\<close>.
\<close>

definition create_params :: "string option \<Rightarrow> string option" where
  "create_params callEventId = (if truthy (nullable callEventId) then callEventId else None)"

definition callsAPI_create :: "server \<Rightarrow> call_data \<Rightarrow> string option \<Rightarrow> call_record io" where
  "callsAPI_create net data callEventId =
     api_call (PostCalls data (create_params callEventId))
       (calls_create net data (create_params callEventId))"

definition freepbxAPI_markProcessed :: "server \<Rightarrow> string \<Rightarrow> unit io" where
  "freepbxAPI_markProcessed net ident =
     api_call (PutMarkProcessed ident) (freepbx_markProcessed net ident)"

definition adminAPI_resetPassword :: "server \<Rightarrow> jsval \<Rightarrow> string \<Rightarrow> unit io" where
  "adminAPI_resetPassword net ident new_password =
     api_call (PostResetPassword ident new_password) (admin_resetPassword net ident new_password)"

text \<open>
  Reading a trace: the requests in order, and what is visible to the user: toasts,
  navigation, and the session teardown of the interceptor.
\<close>

fun requests_of :: "effect list \<Rightarrow> request list" where
  "requests_of [] = []"
| "requests_of (Request r # es) = r # requests_of es"
| "requests_of (e # es) = requests_of es"

fun is_console :: "effect \<Rightarrow> bool" where
  "is_console (ConsoleError m) = True"
| "is_console e = False"

fun is_request :: "effect \<Rightarrow> bool" where
  "is_request (Request r) = True"
| "is_request e = False"

definition visible :: "effect list \<Rightarrow> effect list" where
  "visible es = filter (\<lambda>e. \<not> is_console e \<and> \<not> is_request e) es"

fun is_mark :: "request \<Rightarrow> bool" where
  "is_mark (PutMarkProcessed ident) = True"
| "is_mark r = False"

fun is_update :: "request \<Rightarrow> bool" where
  "is_update (PutContact ident data) = True"
| "is_update r = False"

fun is_create :: "request \<Rightarrow> bool" where
  "is_create (PostCalls data ev) = True"
| "is_create r = False"

section \<open>The call-logging screen\<close>

text \<open>
  The query parameters read by \<open>CallLogPage\<close> (\<open>searchParams.get\<close> gives a string or
  \<open>null\<close>) and its React state. The state variables \<open>duration\<close>, \<open>priority\<close>, \<open>status\<close>
  and \<open>notes\<close> carry the suffix \<open>_st\<close>, the unsuffixed names being the keys of \<open>callData\<close>
  (whose key \<open>notes\<close> is the field \<open>notes_sent\<close>).
\<close>

record entry_params =
  contactIdParam :: "string option"
  phoneParam :: "string option"
  callEventIdParam :: "string option"

record call_log_state =
  isSubmitting :: bool
  isSearching :: bool
  contactFound :: "bool option"
  existingContact :: "contact option"
  isFromFreePBX :: bool
  callerNumber :: string
  duration_st :: string
  callType :: string
  priority_st :: string
  status_st :: string
  notes_st :: string
  resolutionNotes :: string
  newContactName :: string
  newContactEmail :: string
  newContactAddress :: string
  newContactCompany :: string
  timerRunning :: bool
  timerSeconds :: nat

definition initial_state :: call_log_state where
  "initial_state =
     \<lparr> isSubmitting = False, isSearching = False, contactFound = None, existingContact = None,
       isFromFreePBX = False, callerNumber = [], duration_st = [], callType = ''inquiry'',
       priority_st = ''normal'', status_st = ''completed'', notes_st = [],
       resolutionNotes = [], newContactName = [], newContactEmail = [],
       newContactAddress = [], newContactCompany = [], timerRunning = False,
       timerSeconds = 0 \<rparr>"

text \<open>
  \<open>initFromParams\<close>, run once when the screen loads. \<open>if (phoneParam)\<close> and
  \<open>if (contactIdParam)\<close> fail for \<open>null\<close> and for the empty string.
\<close>

definition initFromParams ::
  "server \<Rightarrow> entry_params \<Rightarrow> call_log_state \<Rightarrow> call_log_state \<times> effect list" where
  "initFromParams net p s =
     (case phoneParam p of
        None \<Rightarrow> (s, [])
      | Some phone \<Rightarrow>
          if phone = [] then (s, [])
          else
            let s1 = s\<lparr>callerNumber := phone, isFromFreePBX := True\<rparr>;
                new_caller = (s1\<lparr>contactFound := Some False, timerRunning := True\<rparr>,
                              [ToastInfo (''New caller: '' @ phone)])
            in
            (case contactIdParam p of
               None \<Rightarrow> new_caller
             | Some cid \<Rightarrow>
                 if cid = [] then new_caller
                 else
                   (case contactsAPI_getById net cid of
                      (es, Inr data) \<Rightarrow>
                        (s1\<lparr>existingContact := Some data, contactFound := Some True,
                            timerRunning := True\<rparr>,
                         es @ [ToastSuccess (''Incoming call from '' @
                                 (case name_contact data of
                                    None \<Rightarrow> phone
                                  | Some n \<Rightarrow> if n \<noteq> [] then n else phone))])
                    | (es, Inl error) \<Rightarrow>
                        (s1\<lparr>contactFound := Some False, timerRunning := True\<rparr>,
                         es @ [ConsoleError ''Failed to fetch contact:'']))))"

text \<open>
  The one-second interval (\<open>prev + 1\<close> on a double), \<open>toggleTimer\<close>, and the inputs'
  \<open>onChange\<close> handlers.
\<close>

definition tick :: "call_log_state \<Rightarrow> call_log_state" where
  "tick s =
     (if timerRunning s then s\<lparr>timerSeconds := toDouble (timerSeconds s + 1)\<rparr> else s)"

definition toggleTimer :: "call_log_state \<Rightarrow> call_log_state" where
  "toggleTimer s =
     (if timerRunning s
      then s\<lparr>timerRunning := False, duration_st := toString (timerSeconds s)\<rparr>
      else s\<lparr>timerRunning := True, timerSeconds := 0\<rparr>)"

definition changeCallerNumber :: "string \<Rightarrow> call_log_state \<Rightarrow> call_log_state" where
  "changeCallerNumber v s =
     (if \<not> isFromFreePBX s
      then s\<lparr>callerNumber := v, contactFound := None, existingContact := None\<rparr>
      else s\<lparr>callerNumber := v\<rparr>)"

definition setDuration :: "string \<Rightarrow> call_log_state \<Rightarrow> call_log_state" where
  "setDuration v s = s\<lparr>duration_st := v\<rparr>"

text \<open>\<open>handlePhoneSearch\<close>, the Lookup button.\<close>

definition handlePhoneSearch :: "server \<Rightarrow> call_log_state \<Rightarrow> call_log_state \<times> effect list" where
  "handlePhoneSearch net s =
     (if trim (callerNumber s) = [] then (s, [ToastError ''Please enter a phone number''])
      else
        (case contactsAPI_getByPhone net (trim (callerNumber s)) of
           (es, Inr data) \<Rightarrow>
             if found data
             then (s\<lparr>contactFound := Some True, existingContact := contact data,
                      isSearching := False\<rparr>,
                   es @ [ToastSuccess ''Contact found!''])
             else (s\<lparr>contactFound := Some False, existingContact := None,
                      isSearching := False\<rparr>,
                   es @ [ToastInfo ''New caller - contact will be created automatically''])
         | (es, Inl error) \<Rightarrow>
             (s\<lparr>isSearching := False\<rparr>,
              es @ [ConsoleError ''Error searching contact:'',
                    ToastError ''Failed to search for contact''])))"

text \<open>
  What the screen renders around the duration: the timer display, the manual duration
  input and the \<open>disabled\<close> attribute of the submit button.
\<close>

definition timer_display_shown :: "call_log_state \<Rightarrow> bool" where
  "timer_display_shown s = (timerRunning s \<or> timerSeconds s > 0)"

definition duration_input_shown :: "call_log_state \<Rightarrow> bool" where
  "duration_input_shown s = (\<not> timerRunning s \<and> timerSeconds s = 0)"

definition submit_disabled :: "call_log_state \<Rightarrow> bool" where
  "submit_disabled s = (isSubmitting s \<or> timerRunning s)"

subsection \<open>handleSubmit\<close>

text \<open>\<open>existingContact?.id\<close>\<close>

definition existingContact_id :: "call_log_state \<Rightarrow> jsval" where
  "existingContact_id s = (case existingContact s of None \<Rightarrow> JUndefined | Some c \<Rightarrow> id_contact c)"

definition callData :: "entry_params \<Rightarrow> call_log_state \<Rightarrow> call_data" where
  "callData p s =
     \<lparr> caller_number = trim (callerNumber s),
       duration = js_or (JNum (int (timerSeconds s))) (js_or (parseInt (duration_st s)) (JNum 0)),
       call_type = callType s,
       priority = priority_st s,
       status = status_st s,
       notes_sent = js_or (JStr (trim (notes_st s))) JNull,
       resolution_notes = js_or (JStr (trim (resolutionNotes s))) JNull,
       contact_id = js_or (existingContact_id s) (js_or (nullable (contactIdParam p)) JNull) \<rparr>"

text \<open>
  The condition and the payload of the follow-up update:
  \<open>contactFound === false && (newContactName || newContactEmail || newContactAddress || newContactCompany)\<close>.
\<close>

definition extra_info_given :: "call_log_state \<Rightarrow> bool" where
  "extra_info_given s =
     truthy (js_or (JStr (newContactName s)) (js_or (JStr (newContactEmail s))
       (js_or (JStr (newContactAddress s)) (JStr (newContactCompany s)))))"

definition update_data :: "call_log_state \<Rightarrow> contact_update" where
  "update_data s =
     \<lparr> name = js_or (JStr (newContactName s)) JNull,
       email = js_or (JStr (newContactEmail s)) JNull,
       address = js_or (JStr (newContactAddress s)) JNull,
       company = js_or (JStr (newContactCompany s)) JNull \<rparr>"

text \<open>The body of the \<open>try\<close> block.\<close>

definition submit_try :: "server \<Rightarrow> entry_params \<Rightarrow> call_log_state \<Rightarrow> unit io" where
  "submit_try net p s =
     io_bind (callsAPI_create net (callData p s) (callEventIdParam p)) (\<lambda>callResponse.
     io_bind (if contactFound s = Some False \<and> extra_info_given s
              then contactsAPI_update net (contact_id_created callResponse) (update_data s)
              else io_return ()) (\<lambda>_.
     io_bind (case callEventIdParam p of
                None \<Rightarrow> io_return ()
              | Some ev \<Rightarrow>
                  if ev \<noteq> []
                  then try_catch (freepbxAPI_markProcessed net ev)
                         (\<lambda>err. emit (ConsoleError ''Failed to mark call event as processed:''))
                  else io_return ()) (\<lambda>_.
     io_bind (emit (ToastSuccess ''Call logged successfully!'')) (\<lambda>_.
     emit (Navigate ''/calls'')))))"

definition handleSubmit ::
  "server \<Rightarrow> entry_params \<Rightarrow> call_log_state \<Rightarrow> call_log_state \<times> effect list" where
  "handleSubmit net p s =
     (if trim (callerNumber s) = [] then (s, [ToastError ''Please enter a caller number''])
      else
        (case submit_try net p s of
           (es, Inr u) \<Rightarrow> (s\<lparr>isSubmitting := False\<rparr>, es)
         | (es, Inl error) \<Rightarrow>
             (s\<lparr>isSubmitting := False\<rparr>,
              es @ [ConsoleError ''Error logging call:'',
                    ToastError (error_message error ''Failed to log call'')])))"

text \<open>
  Submitting through the form's button: a disabled submit button does not submit.
\<close>

definition clickSubmit ::
  "server \<Rightarrow> entry_params \<Rightarrow> call_log_state \<Rightarrow> call_log_state \<times> effect list" where
  "clickSubmit net p s = (if submit_disabled s then (s, []) else handleSubmit net p s)"

section \<open>The HTTP client: credential and 401 handling\<close>

text \<open>
  What the interceptors of the axios instance \<open>api\<close> read and write: the browser's
  \<open>localStorage\<close> and \<open>window.location.href\<close>. Request headers are a map from header
  names to values.
\<close>

record browser =
  localStorage :: "string \<rightharpoonup> string"
  location_href :: string

type_synonym headers = "string \<rightharpoonup> string"

definition default_headers :: headers where
  "default_headers = [''Content-Type'' \<mapsto> ''application/json'']"

text \<open>The request interceptor: \<open>if (token) config.headers.Authorization = `Bearer ${token}`\<close>.\<close>

definition request_interceptor :: "browser \<Rightarrow> headers \<Rightarrow> headers" where
  "request_interceptor b config_headers =
     (case localStorage b ''token'' of
        None \<Rightarrow> config_headers
      | Some token \<Rightarrow>
          if token \<noteq> [] then config_headers(''Authorization'' \<mapsto> ''Bearer '' @ token)
          else config_headers)"

text \<open>The response interceptor's error handler; the error is rejected again afterwards.\<close>

definition response_error_interceptor :: "browser \<Rightarrow> http_error \<Rightarrow> browser" where
  "response_error_interceptor b error =
     (if status_code error = Some 401
      then b\<lparr>localStorage := (localStorage b)(''token'' := None, ''user'' := None),
             location_href := ''/login''\<rparr>
      else b)"

text \<open>
  A request through \<open>api\<close> (\<open>api.get\<close>, \<open>api.post\<close>, \<open>api.put\<close>, \<open>api.delete\<close>): the headers
  sent, the browser afterwards, and the outcome handed to the caller. Axios rejects every
  response whose status is outside 2xx, so a 401 arrives as an error.
\<close>

definition api_request :: "browser \<Rightarrow> (http_error + 'a) \<Rightarrow> headers \<times> browser \<times> (http_error + 'a)" where
  "api_request b outcome =
     (request_interceptor b default_headers,
      (case outcome of Inl error \<Rightarrow> response_error_interceptor b error | Inr r \<Rightarrow> b),
      outcome)"

text \<open>What the interceptor's effects in a trace do to the browser.\<close>

fun browser_effect :: "effect \<Rightarrow> browser \<Rightarrow> browser" where
  "browser_effect (RemoveItem k) b = b\<lparr>localStorage := (localStorage b)(k := None)\<rparr>"
| "browser_effect (AssignLocation href) b = b\<lparr>location_href := href\<rparr>"
| "browser_effect e b = b"

text \<open>
  \<open>callsAPI.exportCSV\<close> calls \<open>fetch\<close> itself. \<open>fetch\<close> resolves with the response
  whatever its status and rejects only when no response arrives (\<open>Inl\<close>); the caller gets
  the body as a blob.
\<close>

record fetch_response =
  res_status :: nat
  res_body :: string

definition exportCSV :: "browser \<Rightarrow> (unit + fetch_response) \<Rightarrow> headers \<times> browser \<times> (unit + string)" where
  "exportCSV b outcome =
     ([''Authorization'' \<mapsto>
         ''Bearer '' @ (case localStorage b ''token'' of None \<Rightarrow> ''null'' | Some token \<Rightarrow> token)],
      b,
      (case outcome of Inl failure \<Rightarrow> Inl failure | Inr res \<Rightarrow> Inr (res_body res)))"

section \<open>Routes and navigation by role\<close>

record user_account =
  role :: string

text \<open>What \<open>useAuth\<close> provides to the route wrappers.\<close>

record auth =
  user :: "user_account option"
  loading :: bool

datatype page =
  LoginPage | RegisterPage | DashboardPage | CallLogPage | CallsListPage | ContactsPage | AdminPage

datatype rendered = Spinner | NavigateTo string | InLayout page | Plain page

definition ProtectedRoute :: "auth \<Rightarrow> string list option \<Rightarrow> page \<Rightarrow> rendered" where
  "ProtectedRoute a requiredRoles children =
     (if loading a then Spinner
      else
        (case user a of
           None \<Rightarrow> NavigateTo ''/login''
         | Some u \<Rightarrow>
             (case requiredRoles of
                None \<Rightarrow> InLayout children
              | Some roles \<Rightarrow>
                  if role u \<notin> set roles then NavigateTo ''/dashboard'' else InLayout children)))"

definition PublicRoute :: "auth \<Rightarrow> page \<Rightarrow> rendered" where
  "PublicRoute a children =
     (if loading a then Spinner
      else (case user a of Some u \<Rightarrow> NavigateTo ''/dashboard'' | None \<Rightarrow> Plain children))"

text \<open>The route table of \<open>AppRoutes\<close>: each path pattern with its element.\<close>

datatype element =
    Public page
  | Protected "string list option" page
  | Redirect string

definition AppRoutes :: "(string \<times> element) list" where
  "AppRoutes =
     [(''/login'', Public LoginPage),
      (''/register'', Public RegisterPage),
      (''/dashboard'', Protected None DashboardPage),
      (''/calls/new'', Protected None CallLogPage),
      (''/calls'', Protected None CallsListPage),
      (''/contacts'', Protected None ContactsPage),
      (''/contacts/new'', Protected None ContactsPage),
      (''/admin'', Protected (Some [''admin'']) AdminPage),
      (''/admin/*'', Protected (Some [''admin'']) AdminPage),
      (''/'', Redirect ''/dashboard''),
      (''*'', Redirect ''/dashboard'')]"

fun render :: "auth \<Rightarrow> element \<Rightarrow> rendered" where
  "render a (Public pg) = PublicRoute a pg"
| "render a (Protected requiredRoles pg) = ProtectedRoute a requiredRoles pg"
| "render a (Redirect target) = NavigateTo target"

text \<open>
  \<open>getNavItems(user?.role)\<close> of the layout; \<open>None\<close> is the \<open>undefined\<close> role of a missing
  user. The icons are left out.
\<close>

record nav_item =
  path :: string
  label :: string

definition getNavItems :: "string option \<Rightarrow> nav_item list" where
  "getNavItems r =
     [\<lparr>path = ''/dashboard'', label = ''Dashboard''\<rparr>,
      \<lparr>path = ''/calls/new'', label = ''Log Call''\<rparr>,
      \<lparr>path = ''/calls'', label = ''Call History''\<rparr>,
      \<lparr>path = ''/contacts'', label = ''Contacts''\<rparr>]
     @ (if r = Some ''admin'' then [\<lparr>path = ''/admin'', label = ''Admin''\<rparr>] else [])"

definition admin_item_visible :: "string option \<Rightarrow> bool" where
  "admin_item_visible r = (''Admin'' \<in> set (map label (getNavItems r)))"

section \<open>The administration screen: password reset\<close>

text \<open>
  The part of \<open>AdminPage\<close>'s state that the reset dialog reads and writes. Of a listed user
  only the \<open>id\<close> is read here.
\<close>

record user_item =
  id_user :: jsval

record admin_state =
  selectedUser :: "user_item option"
  newPassword :: string
  isEditOpen :: bool
  isDeleteOpen :: bool
  isResetPasswordOpen :: bool
  isSubmitting_admin :: bool

definition initial_admin :: admin_state where
  "initial_admin =
     \<lparr> selectedUser = None, newPassword = [], isEditOpen = False, isDeleteOpen = False,
       isResetPasswordOpen = False, isSubmitting_admin = False \<rparr>"

definition openEditModal :: "user_item \<Rightarrow> admin_state \<Rightarrow> admin_state" where
  "openEditModal userItem s = s\<lparr>selectedUser := Some userItem, isEditOpen := True\<rparr>"

definition openDeleteModal :: "user_item \<Rightarrow> admin_state \<Rightarrow> admin_state" where
  "openDeleteModal userItem s = s\<lparr>selectedUser := Some userItem, isDeleteOpen := True\<rparr>"

definition openResetPasswordModal :: "user_item \<Rightarrow> admin_state \<Rightarrow> admin_state" where
  "openResetPasswordModal userItem s =
     s\<lparr>selectedUser := Some userItem, newPassword := [], isResetPasswordOpen := True\<rparr>"

definition changeNewPassword :: "string \<Rightarrow> admin_state \<Rightarrow> admin_state" where
  "changeNewPassword v s = s\<lparr>newPassword := v\<rparr>"

definition closeResetPassword :: "admin_state \<Rightarrow> admin_state" where
  "closeResetPassword s = s\<lparr>isResetPasswordOpen := False\<rparr>"

text \<open>
  \<open>handleResetPassword\<close>. Reading \<open>selectedUser.id\<close> of a \<open>null\<close> user throws inside the
  \<open>try\<close> block, before any request; the \<open>catch\<close> then shows the fallback message.
\<close>

definition handleResetPassword :: "server \<Rightarrow> admin_state \<Rightarrow> admin_state \<times> effect list" where
  "handleResetPassword net s =
     (if length (newPassword s) < 6
      then (s, [ToastError ''Password must be at least 6 characters''])
      else
        (case selectedUser s of
           None \<Rightarrow> (s\<lparr>isSubmitting_admin := False\<rparr>, [ToastError ''Failed to reset password''])
         | Some u \<Rightarrow>
             (case adminAPI_resetPassword net (id_user u) (newPassword s) of
                (es, Inr ok) \<Rightarrow>
                  (s\<lparr>isResetPasswordOpen := False, isSubmitting_admin := False\<rparr>,
                   es @ [ToastSuccess ''Password reset successfully''])
              | (es, Inl error) \<Rightarrow>
                  (s\<lparr>isSubmitting_admin := False\<rparr>,
                   es @ [ToastError (error_message error ''Failed to reset password'')]))))"

text \<open>
  The states of the screen that the user can bring about, as far as the reset dialog is
  concerned. The confirm button of the dialog exists only while \<open>isResetPasswordOpen\<close>.
  The handlers of the other dialogs (\<open>handleCreate\<close>, \<open>handleUpdate\<close>, \<open>handleDelete\<close>)
  and their closing write only the flags of the rule \<open>flags\<close>.
\<close>

inductive reachable :: "admin_state \<Rightarrow> bool" where
  init: "reachable initial_admin"
| edit: "reachable s \<Longrightarrow> reachable (openEditModal userItem s)"
| delete: "reachable s \<Longrightarrow> reachable (openDeleteModal userItem s)"
| reset: "reachable s \<Longrightarrow> reachable (openResetPasswordModal userItem s)"
| type: "reachable s \<Longrightarrow> reachable (changeNewPassword v s)"
| close: "reachable s \<Longrightarrow> reachable (closeResetPassword s)"
| confirm: "reachable s \<Longrightarrow> isResetPasswordOpen s \<Longrightarrow> reachable (fst (handleResetPassword net s))"
| flags: "reachable s \<Longrightarrow>
          reachable (s\<lparr>isEditOpen := e, isDeleteOpen := d, isSubmitting_admin := b\<rparr>)"

section \<open>Scenarios\<close>

text \<open>
  Concrete inputs used to exercise the model: the redirected entry of the telephony
  integration, a remote side that answers every request, and two error responses.
\<close>

definition changeNewContactName :: "string \<Rightarrow> call_log_state \<Rightarrow> call_log_state" where
  "changeNewContactName v s = s\<lparr>newContactName := v\<rparr>"

definition redirect_params :: entry_params where
  "redirect_params =
     \<lparr> contactIdParam = Some ''42'', phoneParam = Some ''+15559876543'',
       callEventIdParam = Some ''900'' \<rparr>"

definition manual_params :: entry_params where
  "manual_params = \<lparr> contactIdParam = None, phoneParam = None, callEventIdParam = None \<rparr>"

definition server_error :: http_error where
  "server_error = \<lparr> status_code = Some 500, detail = Some ''Internal Server Error'' \<rparr>"

definition unauthorized :: http_error where
  "unauthorized = \<lparr> status_code = Some 401, detail = Some ''Not authenticated'' \<rparr>"

definition ok_server :: server where
  "ok_server =
     \<lparr> contacts_getById = (\<lambda>ident. Inr \<lparr>id_contact = JStr ident, name_contact = Some ''Ada''\<rparr>),
       contacts_getByPhone = (\<lambda>phone. Inr \<lparr>found = False, contact = None\<rparr>),
       contacts_update = (\<lambda>ident data. Inr ()),
       calls_create = (\<lambda>data ev.
         Inr \<lparr>contact_id_created = (if truthy (contact_id data) then contact_id data else JStr ''77'')\<rparr>),
       freepbx_markProcessed = (\<lambda>ident. Inr ()),
       admin_resetPassword = (\<lambda>ident pw. Inr ()) \<rparr>"

text \<open>A manual entry: number typed, lookup found nothing, a name given for the new contact.\<close>

definition new_caller_state :: call_log_state where
  "new_caller_state =
     initial_state\<lparr>callerNumber := ''+15551234567'', contactFound := Some False,
       newContactName := ''Grace'', duration_st := ''125''\<rparr>"

definition logged_in_browser :: browser where
  "logged_in_browser =
     \<lparr> localStorage = [''token'' \<mapsto> ''t0k3n'', ''user'' \<mapsto> ''agent-7''],
       location_href = ''/calls'' \<rparr>"

definition new_caller_redirect :: entry_params where
  "new_caller_redirect =
     \<lparr> contactIdParam = None, phoneParam = Some ''+15551234567'',
       callEventIdParam = Some ''900'' \<rparr>"

definition update_failing_server :: server where
  "update_failing_server = ok_server\<lparr>contacts_update := (\<lambda>ident data. Inl server_error)\<rparr>"

definition create_failing_server :: server where
  "create_failing_server = ok_server\<lparr>calls_create := (\<lambda>data ev. Inl server_error)\<rparr>"

definition mark_failing_server :: server where
  "mark_failing_server = ok_server\<lparr>freepbx_markProcessed := (\<lambda>ident. Inl server_error)\<rparr>"

definition mark_unauthorized_server :: server where
  "mark_unauthorized_server = ok_server\<lparr>freepbx_markProcessed := (\<lambda>ident. Inl unauthorized)\<rparr>"

definition lookup_failing_server :: server where
  "lookup_failing_server = ok_server\<lparr>contacts_getById := (\<lambda>ident. Inl server_error)\<rparr>"

text \<open>
  Redirected entries, two seconds on the stopwatch, then stopped: a new caller for whom a
  name is typed, a caller whose contact was fetched, and one whose contact could not be
  fetched.
\<close>

definition new_caller_call :: call_log_state where
  "new_caller_call =
     toggleTimer (tick (tick (changeNewContactName ''Grace''
       (fst (initFromParams ok_server new_caller_redirect initial_state)))))"

definition resolved_call :: call_log_state where
  "resolved_call =
     toggleTimer (tick (tick (fst (initFromParams ok_server redirect_params initial_state))))"

definition unresolved_call :: call_log_state where
  "unresolved_call =
     toggleTimer (tick (tick
       (fst (initFromParams lookup_failing_server redirect_params initial_state))))"

section \<open>Proofs: doubles below 2^53\<close>

lemma bitlen_le_iff: "bitlen n \<le> k \<longleftrightarrow> n < 2 ^ k"
proof (induction k arbitrary: n)
  case 0
  show ?case by (simp add: bitlen.simps [of n])
next
  case (Suc k)
  show ?case
  proof (cases "n = 0")
    case True
    then show ?thesis by (simp add: bitlen.simps [of 0])
  next
    case False
    then have "bitlen n \<le> Suc k \<longleftrightarrow> bitlen (n div 2) \<le> k"
      by (simp add: bitlen.simps [of n])
    also have "\<dots> \<longleftrightarrow> n div 2 < 2 ^ k" by (rule Suc.IH)
    also have "\<dots> \<longleftrightarrow> n < 2 ^ Suc k" by auto
    finally show ?thesis .
  qed
qed

lemma rne_div_ge: "a div b \<le> rne_div a b"
  by (simp add: rne_div_def Let_def)

lemma rne_div_cases: "rne_div a b = a div b \<or> (rne_div a b = a div b + 1 \<and> b \<le> 2 * (a mod b))"
  by (auto simp: rne_div_def Let_def)

lemma toDouble_below: "bitlen y \<le> 53 \<Longrightarrow> toDouble y = y"
  by (simp add: toDouble_def)

lemma toDouble_above:
  assumes "\<not> bitlen y \<le> 53"
  shows "2 ^ 53 \<le> toDouble y"
proof -
  define e where "e = bitlen y - 53"
  from assms have e: "bitlen y = 53 + e" "0 < e" by (simp_all add: e_def)
  then have "\<not> bitlen y \<le> 52 + e" by simp
  then have "(2::nat) ^ (52 + e) \<le> y" by (simp add: bitlen_le_iff)
  then have "(2::nat) ^ 52 * 2 ^ e \<le> y" by (simp add: power_add)
  then have "(2::nat) ^ 52 \<le> y div 2 ^ e"
    by (simp add: less_eq_div_iff_mult_less_eq)
  with rne_div_ge [of y "2 ^ e"] have "(2::nat) ^ 52 \<le> rne_div y (2 ^ e)" by simp
  moreover from e have "(2::nat) ^ 1 \<le> 2 ^ e" by (intro power_increasing) simp_all
  ultimately have "(2::nat) ^ 52 * 2 ^ 1 \<le> rne_div y (2 ^ e) * 2 ^ e"
    by (rule mult_le_mono)
  then have "(2::nat) ^ 53 \<le> rne_div y (2 ^ e) * 2 ^ e" by simp
  then show ?thesis using assms by (simp add: toDouble_def e_def)
qed

lemma toDouble_small:
  assumes "toDouble w = v" "v < 2 ^ 53"
  shows "w = v"
proof (cases "bitlen w \<le> 53")
  case True
  with assms show ?thesis by (simp add: toDouble_below)
next
  case False
  from toDouble_above [OF False] assms show ?thesis by simp
qed

lemma candidate_sound: "candidate v k = Some w \<Longrightarrow> toDouble w = v"
  by (auto simp: candidate_def Let_def split: if_splits)

lemma shortest_sound:
  assumes "toDouble v = v"
  shows "toDouble (shortest v) = v"
proof (cases "List.map_filter (candidate v) [1..<length (decimal v)]")
  case Nil
  with assms show ?thesis by (simp add: shortest_def)
next
  case (Cons w ws)
  then have "w \<in> set (List.map_filter (candidate v) [1..<length (decimal v)])" by simp
  then obtain k where "candidate v k = Some w" by (auto simp: List.map_filter_def)
  then have "toDouble w = v" by (rule candidate_sound)
  with Cons show ?thesis by (simp add: shortest_def)
qed

lemma shortest_small:
  assumes "v < 2 ^ 53"
  shows "shortest v = v"
proof -
  from assms have "toDouble v = v" by (simp add: toDouble_below bitlen_le_iff)
  then have "toDouble (shortest v) = v" by (rule shortest_sound)
  then show ?thesis using assms by (rule toDouble_small)
qed

lemma length_decimal_le: "n < 10 ^ k \<Longrightarrow> 0 < k \<Longrightarrow> length (decimal n) \<le> k"
proof (induction n arbitrary: k rule: decimal.induct)
  case (1 n)
  show ?case
  proof (cases "n < 10")
    case True
    with 1(3) show ?thesis by (simp add: decimal.simps [of n])
  next
    case False
    from 1(3) obtain j where k: "k = Suc j" by (cases k) simp_all
    with 1(2) False have "0 < j" by (cases j) simp_all
    moreover from 1(2) k have "n div 10 < 10 ^ j" by (simp add: less_mult_imp_div_less)
    ultimately have "length (decimal (n div 10)) \<le> j" using 1(1) False by simp
    with False k show ?thesis by (simp add: decimal.simps [of n])
  qed
qed

lemma toString_small:
  assumes "v < 2 ^ 53"
  shows "toString v = decimal v"
proof -
  have "(2::nat) ^ 53 < 10 ^ 21" by simp
  with assms have "v < 10 ^ 21" by simp
  then have "length (decimal v) \<le> 21" by (rule length_decimal_le) simp
  then show ?thesis by (simp add: toString_def shortest_small [OF assms])
qed

lemma rne_floor:
  assumes "32 \<le> P"
  shows "rne_div (n * P) 60 div P = n div 60"
proof -
  define q where "q = (n * P) div 60"
  define r where "r = (n * P) mod 60"
  from assms have P: "0 < P" by simp
  have qP: "q div P = n div 60"
  proof -
    have "q div P = (n * P) div (60 * P)" by (simp add: q_def div_mult2_eq)
    also have "\<dots> = n div 60" using P by simp
    finally show ?thesis .
  qed
  from rne_div_cases [of "n * P" 60]
  consider "rne_div (n * P) 60 = q" | "rne_div (n * P) 60 = q + 1" "30 \<le> r"
    by (auto simp: q_def r_def)
  then show ?thesis
  proof cases
    case 1
    with qP show ?thesis by simp
  next
    case 2
    have nP: "n * P = 60 * q + r" by (simp add: q_def r_def)
    have n: "n = 60 * (n div 60) + n mod 60" by simp
    have q: "q = P * (q div P) + q mod P" by simp
    have "q mod P + 1 < P"
    proof (rule ccontr)
      assume "\<not> q mod P + 1 < P"
      moreover have "q mod P < P" using P by simp
      ultimately have s: "q mod P = P - 1" by simp
      have "n * P = (60 * (n div 60) + n mod 60) * P" by (simp only: mult_div_mod_eq)
      also have "\<dots> = 60 * (n div 60 * P) + n mod 60 * P"
        by (simp only: add_mult_distrib mult.assoc)
      finally have a: "n * P = 60 * (n div 60 * P) + n mod 60 * P" .
      have "q = P * (n div 60) + (P - 1)" using q s qP by simp
      then have "60 * q = 60 * (n div 60 * P) + 60 * (P - 1)" by (simp add: algebra_simps)
      with nP a have "n mod 60 * P = 60 * (P - 1) + r" by simp
      moreover have "n mod 60 * P \<le> 59 * P"
        by (intro mult_le_mono1) simp
      ultimately have "60 * (P - 1) + r \<le> 59 * P" by simp
      with 2(2) assms show False by simp
    qed
    then have small: "(q mod P + 1) div P = 0" by simp
    have "q + 1 = (q mod P + 1) + q div P * P" by simp
    then have "(q + 1) div P = ((q mod P + 1) + q div P * P) div P" by (simp only:)
    also have "\<dots> = q div P + (q mod P + 1) div P" using P by (simp only: div_mult_self1)
    finally have "(q + 1) div P = q div P" using small by simp
    with 2(1) qP show ?thesis by simp
  qed
qed

section \<open>Proofs: duration display\<close>

lemma of_char_digit_char: "d < 10 \<Longrightarrow> (of_char (digit_char d) :: nat) = 48 + d"
  by (simp add: digit_char_def)

lemma digit_char_not_colon: "d < 10 \<Longrightarrow> digit_char d \<noteq> CHR '':''"
proof
  assume d: "d < 10" and "digit_char d = CHR '':''"
  then have "(of_char (digit_char d) :: nat) = of_char CHR '':''" by simp
  with d show False by (simp add: of_char_digit_char)
qed

lemma digit_char_0: "digit_char 0 = CHR ''0''"
  by code_simp

lemma decimal_value_snoc: "decimal_value (s @ [c]) = decimal_value s * 10 + (of_char c - 48)"
  by (simp add: decimal_value_def)

lemma decimal_value_decimal: "decimal_value (decimal n) = n"
proof (induction n rule: decimal.induct)
  case (1 n)
  show ?case
  proof (cases "n < 10")
    case True
    then show ?thesis
      by (simp add: decimal.simps [of n] decimal_value_def of_char_digit_char)
  next
    case False
    with 1 have "decimal_value (decimal (n div 10)) = n div 10" by simp
    with False show ?thesis
      by (simp add: decimal.simps [of n] decimal_value_snoc of_char_digit_char)
  qed
qed

lemma decimal_no_colon: "CHR '':'' \<notin> set (decimal n)"
proof (induction n rule: decimal.induct)
  case (1 n)
  show ?case
  proof (cases "n < 10")
    case True
    then show ?thesis
      using digit_char_not_colon [of n] by (auto simp: decimal.simps [of n])
  next
    case False
    with 1 have "CHR '':'' \<notin> set (decimal (n div 10))" by simp
    with False show ?thesis
      using digit_char_not_colon [of "n mod 10"] by (auto simp: decimal.simps [of n])
  qed
qed

lemma decimal_length_ge2: "10 \<le> n \<Longrightarrow> 2 \<le> length (decimal n)"
  by (subst decimal.simps) (simp add: decimal.simps [of "n div 10"])

lemma padStart_two_small: "k < 10 \<Longrightarrow> padStart 2 ''0'' (decimal k) = [CHR ''0'', digit_char k]"
  by (simp add: padStart_def decimal.simps [of k])

lemma padStart_two_large: "10 \<le> k \<Longrightarrow> padStart 2 ''0'' (decimal k) = decimal k"
  using decimal_length_ge2 [of k] by (simp add: padStart_def)

lemma decimal_two_digits:
  assumes "10 \<le> k" "k < 100"
  shows "decimal k = [digit_char (k div 10), digit_char (k mod 10)]"
proof -
  from assms have "k div 10 < 10" by simp
  with assms show ?thesis
    by (simp add: decimal.simps [of k] decimal.simps [of "k div 10"])
qed

lemma padStart_two_digits:
  assumes "k < 100"
  shows "padStart 2 ''0'' (decimal k) = [digit_char (k div 10), digit_char (k mod 10)]"
proof (cases "k < 10")
  case True
  then show ?thesis by (simp add: padStart_two_small digit_char_0)
next
  case False
  with assms show ?thesis
    using padStart_two_large [of k] decimal_two_digits [of k] by simp
qed

lemma padStart_no_colon: "CHR '':'' \<notin> set (padStart 2 ''0'' (decimal k))"
  using decimal_no_colon [of k] digit_char_not_colon [of k]
  by (cases "k < 10") (auto simp: padStart_two_small padStart_two_large)

lemma decimal_value_padStart: "decimal_value (padStart 2 ''0'' (decimal k)) = k"
proof (cases "k < 10")
  case True
  then show ?thesis
    by (simp add: padStart_two_small decimal_value_def of_char_digit_char)
next
  case False
  then show ?thesis by (simp add: padStart_two_large decimal_value_decimal)
qed

lemma takeWhile_until: "c \<notin> set a \<Longrightarrow> takeWhile (\<lambda>x. x \<noteq> c) (a @ c # b) = a"
  by (induction a) auto

lemma dropWhile_until: "c \<notin> set a \<Longrightarrow> dropWhile (\<lambda>x. x \<noteq> c) (a @ c # b) = c # b"
  by (induction a) auto

lemma readDisplay_append:
  "CHR '':'' \<notin> set a \<Longrightarrow> readDisplay (a @ '':'' @ b) = decimal_value a * 60 + decimal_value b"
  by (simp add: readDisplay_def takeWhile_until dropWhile_until)

lemma bitlen_60: "bitlen 60 = 6"
  by (simp add: bitlen.simps)

text \<open>
  Below \<open>2^53\<close> the quotient by 60 has at least five binary places after the point, which
  is too fine for the rounding to reach the next integer: \<open>Math.floor(seconds / 60)\<close> is the
  integer quotient.
\<close>

lemma floor_divide_60:
  assumes "n < 2 ^ 53"
  shows "Math_floor (js_divide n 60) = n div 60"
proof (cases "n = 0")
  case True
  then show ?thesis by (simp add: js_divide_def Math_floor_def)
next
  case False
  from assms have len: "bitlen n \<le> 53" by (simp add: bitlen_le_iff)
  define d where "d = int (bitlen n) - 6"
  define e where "e = (if (if 0 \<le> d then 60 * 2 ^ nat d \<le> n else 60 \<le> n * 2 ^ nat (- d))
                 then d - 52 else d - 53)"
  from len have e: "e \<le> - 5" by (simp add: e_def d_def)
  then have neg: "\<not> 0 \<le> e" by simp
  from e have "5 \<le> nat (- e)" by simp
  then have "(2::nat) ^ 5 \<le> 2 ^ nat (- e)" by (intro power_increasing) simp_all
  then have P: "32 \<le> (2::nat) ^ nat (- e)" by simp
  from False have "js_divide n 60 =
      (if 0 \<le> e then (rne_div n (60 * 2 ^ nat e), e) else (rne_div (n * 2 ^ nat (- e)) 60, e))"
    by (simp add: js_divide_def bitlen_60 Let_def e_def d_def)
  with neg have "js_divide n 60 = (rne_div (n * 2 ^ nat (- e)) 60, e)" by simp
  with neg have "Math_floor (js_divide n 60) = rne_div (n * 2 ^ nat (- e)) 60 div 2 ^ nat (- e)"
    by (simp add: Math_floor_def)
  with rne_floor [OF P] show ?thesis by simp
qed

lemma formatDuration_small:
  assumes "n < 2 ^ 53"
  shows "formatDuration n = decimal (n div 60) @ '':'' @ padStart 2 ''0'' (decimal (n mod 60))"
proof -
  from assms have "n div 60 < 2 ^ 53" by (rule le_less_trans [OF div_le_dividend])
  moreover have "n mod 60 < 2 ^ 53" by (rule less_trans [of _ 60]) simp_all
  ultimately show ?thesis
    by (simp add: formatDuration_def Let_def floor_divide_60 [OF assms] toString_small)
qed

lemma formatTimerDisplay_small:
  assumes "n < 2 ^ 53"
  shows "formatTimerDisplay n =
    padStart 2 ''0'' (decimal (n div 60)) @ '':'' @ padStart 2 ''0'' (decimal (n mod 60))"
proof -
  from assms have "n div 60 < 2 ^ 53" by (rule le_less_trans [OF div_le_dividend])
  moreover have "n mod 60 < 2 ^ 53" by (rule less_trans [of _ 60]) simp_all
  ultimately show ?thesis
    by (simp add: formatTimerDisplay_def Let_def floor_divide_60 [OF assms] toString_small)
qed

lemma readDisplay_formatDuration: "n < 2 ^ 53 \<Longrightarrow> readDisplay (formatDuration n) = n"
  by (simp add: formatDuration_small readDisplay_append decimal_no_colon
      decimal_value_decimal decimal_value_padStart del: append.simps)

lemma readDisplay_formatTimerDisplay: "n < 2 ^ 53 \<Longrightarrow> readDisplay (formatTimerDisplay n) = n"
  by (simp add: formatTimerDisplay_small readDisplay_append padStart_no_colon
      decimal_value_padStart del: append.simps)

lemma formatDuration_shape:
  "n < 2 ^ 53 \<Longrightarrow>
   formatDuration n =
     decimal (n div 60) @ [CHR '':'', digit_char (n mod 60 div 10), digit_char (n mod 60 mod 10)]"
  by (simp add: formatDuration_small padStart_two_digits)

lemma formatTimerDisplay_shape:
  assumes "n < 2 ^ 53"
  shows "formatTimerDisplay n =
     (if n div 60 < 10 then ''0'' else []) @ decimal (n div 60)
       @ [CHR '':'', digit_char (n mod 60 div 10), digit_char (n mod 60 mod 10)]"
proof (cases "n div 60 < 10")
  case True
  then show ?thesis
    using padStart_two_small [of "n div 60"]
    by (simp add: formatTimerDisplay_small [OF assms] padStart_two_digits decimal.simps [of "n div 60"])
next
  case False
  then show ?thesis
    using padStart_two_large [of "n div 60"]
    by (simp add: formatTimerDisplay_small [OF assms] padStart_two_digits)
qed

lemma digit_char_Suc_0: "digit_char (Suc 0) = CHR ''1''"
proof -
  have "digit_char (Suc 0) = char_of (49::nat)" by (simp add: digit_char_def)
  also have "\<dots> = CHR ''1''" by code_simp
  finally show ?thesis .
qed

lemma digit_char_simps:
  "digit_char 0 = CHR ''0''" "digit_char 2 = CHR ''2''"
  "digit_char 3 = CHR ''3''" "digit_char 4 = CHR ''4''" "digit_char 5 = CHR ''5''"
  "digit_char 6 = CHR ''6''" "digit_char 7 = CHR ''7''" "digit_char 8 = CHR ''8''"
  "digit_char 9 = CHR ''9''"
  by code_simp+

text \<open>
  C10, as amended. For every number of seconds \<open>n\<close> below \<open>2^53\<close>, \<open>formatDuration\<close>
  renders the decimal numeral of \<open>n div 60\<close>, a colon and the two decimal digits of
  \<open>n mod 60\<close>; \<open>formatTimerDisplay\<close> renders the same with the minutes padded to at least
  two digits. The seconds component is below 60, minutes times 60 plus seconds is \<open>n\<close>,
  reading a display back gives \<open>n\<close>, and two such numbers with the same display are equal.
\<close>

theorem duration_display_roundtrip:
  assumes "n < 2 ^ 53" and "m < 2 ^ 53"
  shows "formatDuration n =
     decimal (n div 60) @ [CHR '':'', digit_char (n mod 60 div 10), digit_char (n mod 60 mod 10)]
   \<and> formatTimerDisplay n =
     (if n div 60 < 10 then ''0'' else []) @ decimal (n div 60)
       @ [CHR '':'', digit_char (n mod 60 div 10), digit_char (n mod 60 mod 10)]
   \<and> decimal_value (decimal (n div 60)) = n div 60
   \<and> n mod 60 < 60 \<and> (n div 60) * 60 + n mod 60 = n
   \<and> readDisplay (formatDuration n) = n
   \<and> readDisplay (formatTimerDisplay n) = n
   \<and> (formatDuration m = formatDuration n) = (m = n)
   \<and> (formatTimerDisplay m = formatTimerDisplay n) = (m = n)"
proof -
  have inj1: "(formatDuration m = formatDuration n) = (m = n)"
  proof
    assume "formatDuration m = formatDuration n"
    then have "readDisplay (formatDuration m) = readDisplay (formatDuration n)" by simp
    then show "m = n" using assms by (simp only: readDisplay_formatDuration)
  qed simp
  have inj2: "(formatTimerDisplay m = formatTimerDisplay n) = (m = n)"
  proof
    assume "formatTimerDisplay m = formatTimerDisplay n"
    then have "readDisplay (formatTimerDisplay m) = readDisplay (formatTimerDisplay n)" by simp
    then show "m = n" using assms by (simp only: readDisplay_formatTimerDisplay)
  qed simp
  have arith: "n mod 60 < 60 \<and> (n div 60) * 60 + n mod 60 = n" by simp
  show ?thesis
    using formatDuration_shape [OF assms(1)] formatTimerDisplay_shape [OF assms(1)]
      decimal_value_decimal [of "n div 60"] arith
      readDisplay_formatDuration [OF assms(1)] readDisplay_formatTimerDisplay [OF assms(1)]
      inj1 inj2
    by blast
qed

theorem duration_display_roundtrip_witness:
  "(125::nat) < 2 ^ 53 \<and> (65::nat) < 2 ^ 53
   \<and> formatDuration 125 = ''2:05'' \<and> formatTimerDisplay 125 = ''02:05''
   \<and> readDisplay ''2:05'' = 125 \<and> readDisplay ''02:05'' = 125
   \<and> formatDuration 65 \<noteq> formatDuration 125"
proof -
  have n: "(125::nat) < 2 ^ 53" and m: "(65::nat) < 2 ^ 53" by simp_all
  have d: "formatDuration 125 = ''2:05''"
    by (simp add: formatDuration_small decimal.simps digit_char_simps digit_char_Suc_0
        padStart_def)
  have t: "formatTimerDisplay 125 = ''02:05''"
    by (simp add: formatTimerDisplay_small decimal.simps digit_char_simps digit_char_Suc_0
        padStart_def)
  from duration_display_roundtrip [OF n m]
  have "readDisplay (formatDuration 125) = 125" "readDisplay (formatTimerDisplay 125) = 125"
    "(formatDuration 65 = formatDuration 125) = ((65::nat) = 125)"
    by blast+
  with n m d t show ?thesis by simp
qed

text \<open>
  Without the bound the claim fails. The number \<open>10^21\<close> is a double; its quotient by 60
  is rounded to 53 bits, and the minutes are printed with their 17 significant digits.
\<close>

lemma bitlen_eq: "2 ^ k \<le> n \<Longrightarrow> n < 2 ^ Suc k \<Longrightarrow> bitlen n = Suc k"
  using bitlen_le_iff [of n "Suc k"] bitlen_le_iff [of n k] by simp

lemma bitlen_big: "bitlen 1000000000000000000000 = 70"
  by (rule bitlen_eq [of 69, simplified]) simp_all

lemma toDouble_big: "toDouble 1000000000000000000000 = 1000000000000000000000"
  by (simp add: toDouble_def bitlen_big rne_div_def Let_def)

lemma divide_big: "js_divide 1000000000000000000000 60 = (8138020833333333, 11)"
  by (simp add: js_divide_def bitlen_big bitlen_60 rne_div_def Let_def)

lemma floor_big: "Math_floor (js_divide 1000000000000000000000 60) = 16666666666666665984"
  by (simp add: divide_big Math_floor_def)

lemma decimal_mins: "decimal 16666666666666665984 = ''16666666666666665984''"
  by (simp add: decimal.simps digit_char_simps digit_char_Suc_0)

lemma length_decimal_mins: "length (decimal 16666666666666665984) = 20"
  by (simp add: decimal_mins)

lemma upt_1_20: "[1..<20] = [1,2,3,4,5,6,7,8,9,10,11,12,13,14,15,16,17,18,19::nat]"
  by (simp add: upt_rec)

lemma toDouble_64:
  assumes "9223372036854775808 \<le> y" "y < 18446744073709551616"
  shows "toDouble y = rne_div y 2048 * 2048"
proof -
  from assms have "bitlen y = Suc 63" by (intro bitlen_eq) simp_all
  then show ?thesis by (simp add: toDouble_def)
qed

lemma toDouble_65:
  assumes "18446744073709551616 \<le> y" "y < 36893488147419103232"
  shows "toDouble y = rne_div y 4096 * 4096"
proof -
  from assms have "bitlen y = Suc 64" by (intro bitlen_eq) simp_all
  then show ?thesis by (simp add: toDouble_def)
qed

lemma candidates_mins:
  "List.map_filter (candidate 16666666666666665984) [1..<20] =
     [16666666666666666000, 16666666666666666000, 16666666666666665980]"
  unfolding upt_1_20
  by (simp add: candidate_def length_decimal_mins toDouble_64 toDouble_65 rne_div_def Let_def)

lemma shortest_mins: "shortest 16666666666666665984 = 16666666666666666000"
  unfolding shortest_def length_decimal_mins candidates_mins by simp

lemma toString_mins: "toString 16666666666666665984 = ''16666666666666666000''"
proof -
  have "decimal 16666666666666666000 = ''16666666666666666000''"
    by (simp add: decimal.simps digit_char_simps digit_char_Suc_0)
  then show ?thesis by (simp add: toString_def shortest_mins)
qed

lemma toString_40: "toString 40 = ''40''"
  by (simp add: toString_small decimal.simps digit_char_simps)

lemma formatDuration_big: "formatDuration 1000000000000000000000 = ''16666666666666666000:40''"
  by (simp add: formatDuration_def Let_def floor_big toString_mins toString_40 padStart_def)

lemma formatTimerDisplay_big:
  "formatTimerDisplay 1000000000000000000000 = ''16666666666666666000:40''"
  by (simp add: formatTimerDisplay_def Let_def floor_big toString_mins toString_40 padStart_def)

lemma readDisplay_big: "readDisplay ''16666666666666666000:40'' = 999999999999999960040"
  by (simp add: readDisplay_def decimal_value_def)

lemma decimal_quotient_big: "decimal 16666666666666666666 = ''16666666666666666666''"
  by (simp add: decimal.simps digit_char_simps digit_char_Suc_0)

theorem duration_display_roundtrip_counterexample:
  "toDouble 1000000000000000000000 = 1000000000000000000000
   \<and> formatDuration 1000000000000000000000 = ''16666666666666666000:40''
   \<and> formatTimerDisplay 1000000000000000000000 = ''16666666666666666000:40''
   \<and> decimal (1000000000000000000000 div 60) = ''16666666666666666666''
   \<and> readDisplay (formatDuration 1000000000000000000000) = 999999999999999960040
   \<and> readDisplay (formatDuration 1000000000000000000000) \<noteq> 1000000000000000000000"
  by (simp add: toDouble_big formatDuration_big formatTimerDisplay_big decimal_quotient_big
      readDisplay_big)

section \<open>Proofs: parseInt reads decimal numerals\<close>

lemma digit_value_digit_char: "d < 10 \<Longrightarrow> digit_value (digit_char d) = Some d"
  by (simp add: digit_value_def Let_def of_char_digit_char)

lemma decimal_digits: "c \<in> set (decimal n) \<Longrightarrow> \<exists>d<10. c = digit_char d"
proof (induction n rule: decimal.induct)
  case (1 n)
  show ?case
  proof (cases "n < 10")
    case True
    with 1(2) show ?thesis by (auto simp: decimal.simps [of n])
  next
    case False
    with 1(2) have "c \<in> set (decimal (n div 10)) \<or> c = digit_char (n mod 10)"
      by (auto simp: decimal.simps [of n])
    then show ?thesis
    proof
      assume "c \<in> set (decimal (n div 10))"
      with 1(1) False show ?thesis by simp
    next
      assume "c = digit_char (n mod 10)"
      moreover have "n mod 10 < 10" by simp
      ultimately show ?thesis by blast
    qed
  qed
qed

lemma decimal_radix_digits: "c \<in> set (decimal n) \<Longrightarrow> is_radix_digit 10 c"
  by (auto dest!: decimal_digits simp: is_radix_digit_def digit_value_digit_char)

lemma radix_value_snoc:
  "radix_value R (s @ [c]) = radix_value R s * R + (case digit_value c of None \<Rightarrow> 0 | Some d \<Rightarrow> d)"
  by (simp add: radix_value_def)

lemma radix_value_decimal: "radix_value 10 (decimal n) = n"
proof (induction n rule: decimal.induct)
  case (1 n)
  show ?case
  proof (cases "n < 10")
    case True
    then show ?thesis
      by (simp add: decimal.simps [of n] radix_value_def digit_value_digit_char)
  next
    case False
    with 1 have "radix_value 10 (decimal (n div 10)) = n div 10" by simp
    with False show ?thesis
      by (simp add: decimal.simps [of n] radix_value_snoc digit_value_digit_char)
  qed
qed

lemma decimal_not_Nil: "decimal n \<noteq> []"
  by (subst decimal.simps) simp

lemma parseDigits_decimal:
  assumes "n < 2 ^ 53"
  shows "parseDigits sign 10 (decimal n) = JNum (sign * int n)"
proof -
  from assms have small: "toDouble n = n" by (simp add: toDouble_below bitlen_le_iff)
  have tw: "takeWhile (is_radix_digit 10) (decimal n) = decimal n"
    by (simp add: takeWhile_eq_all_conv decimal_radix_digits)
  show ?thesis
    by (simp add: parseDigits_def Let_def tw decimal_not_Nil radix_value_decimal small)
qed

lemma digit_char_plain:
  assumes "d < 10"
  shows "\<not> is_space (digit_char d)" "digit_char d \<noteq> CHR ''-''" "digit_char d \<noteq> CHR ''+''"
    "digit_char d \<noteq> CHR ''x''" "digit_char d \<noteq> CHR ''X''"
proof -
  have k: "(of_char (digit_char d) :: nat) = 48 + d" using assms by (rule of_char_digit_char)
  show "\<not> is_space (digit_char d)" using assms k by (auto simp: is_space_def)
  have neq: "(of_char c :: nat) \<noteq> 48 + d \<Longrightarrow> digit_char d \<noteq> c" for c using k by auto
  show "digit_char d \<noteq> CHR ''-''" "digit_char d \<noteq> CHR ''+''"
    "digit_char d \<noteq> CHR ''x''" "digit_char d \<noteq> CHR ''X''"
    using assms by (auto intro!: neq)
qed

lemma stripPrefix_decimal: "stripPrefix sign (decimal n) = parseDigits sign 10 (decimal n)"
proof (cases "decimal n")
  case Nil
  then show ?thesis by simp
next
  case (Cons a S)
  show ?thesis
  proof (cases S)
    case Nil
    with Cons show ?thesis by simp
  next
    case (Cons b S')
    with \<open>decimal n = a # S\<close> have "b \<in> set (decimal n)" by simp
    then obtain d where "d < 10" "b = digit_char d" by (auto dest: decimal_digits)
    then have "b \<noteq> CHR ''x''" "b \<noteq> CHR ''X''" by (simp_all add: digit_char_plain)
    with Cons \<open>decimal n = a # S\<close> show ?thesis by simp
  qed
qed

lemma parseInt_decimal:
  assumes "n < 2 ^ 53"
  shows "parseInt (decimal n) = JNum (int n)"
proof (cases "decimal n")
  case Nil
  then show ?thesis by (simp add: decimal_not_Nil)
next
  case (Cons c S)
  then have "c \<in> set (decimal n)" by simp
  then obtain d where d: "d < 10" "c = digit_char d" by (auto dest: decimal_digits)
  then have plain: "\<not> is_space c" "c \<noteq> CHR ''-''" "c \<noteq> CHR ''+''"
    by (simp_all add: digit_char_plain)
  with Cons have "trimStart (decimal n) = c # S" by (simp add: trimStart_def)
  with plain have "parseInt (decimal n) = stripPrefix 1 (c # S)"
    by (simp add: parseInt_def)
  also have "\<dots> = stripPrefix 1 (decimal n)" using Cons by simp
  also have "\<dots> = JNum (int n)"
    by (simp add: stripPrefix_decimal parseDigits_decimal [OF assms])
  finally show ?thesis .
qed

lemma parseInt_examples:
  "parseInt ''125'' = JNum 125" "parseInt ''  -7 '' = JNum (- 7)" "parseInt ''12.5'' = JNum 12"
  "parseInt ''0x1F'' = JNum 31" "parseInt '''' = JNaN" "parseInt ''abc'' = JNaN"
  "parseInt ''1e3'' = JNum 1"
  by code_simp+

lemma parseInt_toString: "n < 2 ^ 53 \<Longrightarrow> parseInt (toString n) = JNum (int n)"
  by (simp add: toString_small parseInt_decimal)

section \<open>Proofs: the call-logging flow\<close>

lemmas io_defs = io_bind_def io_return_def emit_def try_catch_def api_call_def
  callsAPI_create_def contactsAPI_update_def freepbxAPI_markProcessed_def

lemma dropWhile_all_iff: "(\<forall>x\<in>set (dropWhile P s). P x) \<longleftrightarrow> (\<forall>x\<in>set s. P x)"
proof
  assume a: "\<forall>x\<in>set (dropWhile P s). P x"
  show "\<forall>x\<in>set s. P x"
  proof
    fix x assume "x \<in> set s"
    then have "x \<in> set (takeWhile P s @ dropWhile P s)" by simp
    then have "x \<in> set (takeWhile P s) \<or> x \<in> set (dropWhile P s)"
      by (simp del: takeWhile_dropWhile_id)
    with a show "P x" by (auto dest: set_takeWhileD)
  qed
next
  assume "\<forall>x\<in>set s. P x"
  then show "\<forall>x\<in>set (dropWhile P s). P x" by (auto dest: set_dropWhileD)
qed

lemma trim_Nil_iff: "trim s = [] \<longleftrightarrow> list_all is_space s"
  by (simp add: trim_def list_all_iff dropWhile_eq_Nil_conv dropWhile_all_iff)

lemma requests_of_append: "requests_of (xs @ ys) = requests_of xs @ requests_of ys"
  by (induction xs rule: requests_of.induct) simp_all

lemma requests_of_interceptor: "requests_of (interceptor_effects error) = []"
  by (simp add: interceptor_effects_def)

lemma create_params_cases:
  "create_params ev = (case ev of None \<Rightarrow> None | Some e \<Rightarrow> if e \<noteq> [] then Some e else None)"
  by (simp add: create_params_def nullable_def split: option.splits)

lemma extra_info_given_iff:
  "extra_info_given s \<longleftrightarrow>
     newContactName s \<noteq> [] \<or> newContactEmail s \<noteq> [] \<or> newContactAddress s \<noteq> []
       \<or> newContactCompany s \<noteq> []"
  by (simp add: extra_info_given_def js_or_def)

lemma submit_try_ok:
  assumes "calls_create net (callData p s) (create_params (callEventIdParam p)) = Inr resp"
    and "\<not> (contactFound s = Some False \<and> extra_info_given s)
         \<or> contacts_update net (contact_id_created resp) (update_data s) = Inr ()"
  shows "submit_try net p s =
     (Request (PostCalls (callData p s) (create_params (callEventIdParam p)))
        # (if contactFound s = Some False \<and> extra_info_given s
           then [Request (PutContact (contact_id_created resp) (update_data s))] else [])
        @ (case create_params (callEventIdParam p) of
             None \<Rightarrow> []
           | Some ev \<Rightarrow> Request (PutMarkProcessed ev)
               # (case freepbx_markProcessed net ev of
                    Inl err \<Rightarrow> interceptor_effects err
                      @ [ConsoleError ''Failed to mark call event as processed:'']
                  | Inr ok \<Rightarrow> []))
        @ [ToastSuccess ''Call logged successfully!'', Navigate ''/calls''],
      Inr ())"
  using assms
  by (auto simp: submit_try_def io_defs create_params_def nullable_def split: sum.splits option.splits)

lemma submit_try_create_failed:
  assumes "calls_create net (callData p s) (create_params (callEventIdParam p)) = Inl error"
  shows "submit_try net p s =
     (Request (PostCalls (callData p s) (create_params (callEventIdParam p)))
        # interceptor_effects error, Inl error)"
  using assms by (simp add: submit_try_def io_defs)

lemma submit_try_update_failed:
  assumes "calls_create net (callData p s) (create_params (callEventIdParam p)) = Inr resp"
    and "contactFound s = Some False" "extra_info_given s"
    and "contacts_update net (contact_id_created resp) (update_data s) = Inl error"
  shows "submit_try net p s =
     (Request (PostCalls (callData p s) (create_params (callEventIdParam p)))
        # Request (PutContact (contact_id_created resp) (update_data s))
        # interceptor_effects error, Inl error)"
  using assms by (simp add: submit_try_def io_defs)

lemma handleSubmit_requests:
  "requests_of (snd (handleSubmit net p s)) =
     (if trim (callerNumber s) = [] then []
      else PostCalls (callData p s) (create_params (callEventIdParam p)) #
        (case calls_create net (callData p s) (create_params (callEventIdParam p)) of
           Inl error \<Rightarrow> []
         | Inr resp \<Rightarrow>
             (if contactFound s = Some False \<and> extra_info_given s
              then PutContact (contact_id_created resp) (update_data s) #
                (case contacts_update net (contact_id_created resp) (update_data s) of
                   Inl error \<Rightarrow> []
                 | Inr ok \<Rightarrow>
                     (case create_params (callEventIdParam p) of
                        None \<Rightarrow> [] | Some ev \<Rightarrow> [PutMarkProcessed ev]))
              else (case create_params (callEventIdParam p) of
                        None \<Rightarrow> [] | Some ev \<Rightarrow> [PutMarkProcessed ev]))))"
proof (cases "trim (callerNumber s) = []")
  case True
  then show ?thesis by (simp add: handleSubmit_def)
next
  case False
  show ?thesis
  proof (cases "calls_create net (callData p s) (create_params (callEventIdParam p))")
    case (Inl error)
    with False show ?thesis
      by (simp add: handleSubmit_def submit_try_create_failed requests_of_append
          requests_of_interceptor)
  next
    case (Inr resp)
    show ?thesis
    proof (cases "contactFound s = Some False \<and> extra_info_given s")
      case needs: True
      show ?thesis
      proof (cases "contacts_update net (contact_id_created resp) (update_data s)")
        case (Inl error)
        with False Inr needs show ?thesis
          by (simp add: handleSubmit_def submit_try_update_failed requests_of_append
              requests_of_interceptor)
      next
        case ok: (Inr u)
        with False Inr needs show ?thesis
          by (simp add: handleSubmit_def submit_try_ok [where resp = resp] requests_of_append
              requests_of_interceptor split: option.splits sum.splits)
      qed
    next
      case no: False
      with False Inr show ?thesis
        by (simp add: handleSubmit_def submit_try_ok [where resp = resp] requests_of_append
            requests_of_interceptor split: option.splits sum.splits)
    qed
  qed
qed

lemma handleSubmit_creates:
  "filter is_create (requests_of (snd (handleSubmit net p s))) =
     (if trim (callerNumber s) = [] then []
      else [PostCalls (callData p s) (create_params (callEventIdParam p))])"
  by (simp add: handleSubmit_requests split: sum.splits option.splits)

lemma handleSubmit_first:
  "trim (callerNumber s) \<noteq> [] \<Longrightarrow>
   take 1 (snd (handleSubmit net p s)) =
     [Request (PostCalls (callData p s) (create_params (callEventIdParam p)))]"
  by (auto simp: handleSubmit_def submit_try_def io_defs split: sum.splits prod.splits option.splits)

lemma parseDigits_cases: "parseDigits sign R S = JNaN \<or> (\<exists>k. parseDigits sign R S = JNum k)"
  by (simp add: parseDigits_def Let_def)

lemma stripPrefix_cases: "stripPrefix sign S = JNaN \<or> (\<exists>k. stripPrefix sign S = JNum k)"
  by (cases "(sign, S)" rule: stripPrefix.cases) (auto simp: parseDigits_cases)

lemma parseInt_cases: "parseInt x = JNaN \<or> (\<exists>k. parseInt x = JNum k)"
  by (auto simp: parseInt_def stripPrefix_cases split: list.splits)

lemma duration_callData:
  "duration (callData p s) =
     (if timerSeconds s \<noteq> 0 then JNum (int (timerSeconds s))
      else if truthy (parseInt (duration_st s)) then parseInt (duration_st s)
      else JNum 0)"
  by (simp add: callData_def js_or_def)

lemma duration_is_number: "\<exists>k. duration (callData p s) = JNum k"
  using parseInt_cases [of "duration_st s"] by (auto simp: duration_callData)

text \<open>Stopping the stopwatch copies the counter into the manual field; either way it is sent.\<close>

lemma duration_after_stop:
  "timerRunning s \<Longrightarrow> timerSeconds s < 2 ^ 53 \<Longrightarrow>
   duration (callData p (toggleTimer s)) = JNum (int (timerSeconds s))"
  by (simp add: duration_callData toggleTimer_def parseInt_toString)

text \<open>
  C7. A submission whose caller number is empty or consists of white space only fails
  locally: the handler shows the error toast and issues no request at all. For every other
  caller number the first effect of the submission is the create-call request, carrying
  the trimmed, non-empty number.
\<close>

theorem caller_number_validation:
  "(list_all is_space (callerNumber s) \<longrightarrow>
      handleSubmit net p s = (s, [ToastError ''Please enter a caller number''])
      \<and> requests_of (snd (handleSubmit net p s)) = [])
   \<and> (\<not> list_all is_space (callerNumber s) \<longrightarrow>
      take 1 (snd (handleSubmit net p s)) =
        [Request (PostCalls (callData p s) (create_params (callEventIdParam p)))]
      \<and> caller_number (callData p s) = trim (callerNumber s)
      \<and> caller_number (callData p s) \<noteq> [])"
proof (cases "list_all is_space (callerNumber s)")
  case True
  then have "trim (callerNumber s) = []" by (simp add: trim_Nil_iff)
  with True show ?thesis by (simp add: handleSubmit_def)
next
  case False
  then have ne: "trim (callerNumber s) \<noteq> []" by (simp add: trim_Nil_iff)
  have "caller_number (callData p s) = trim (callerNumber s)" by (simp add: callData_def)
  with False ne handleSubmit_first [OF ne, of net p] show ?thesis by simp
qed

theorem caller_number_validation_witness:
  "list_all is_space (callerNumber (changeCallerNumber ''  '' initial_state))
   \<and> snd (handleSubmit create_failing_server manual_params (changeCallerNumber ''  '' initial_state))
       = [ToastError ''Please enter a caller number'']
   \<and> \<not> list_all is_space (callerNumber new_caller_state)
   \<and> take 1 (snd (handleSubmit create_failing_server manual_params new_caller_state))
       = [Request (PostCalls (callData manual_params new_caller_state) None)]"
proof -
  have blank: "list_all is_space (callerNumber (changeCallerNumber ''  '' initial_state))"
    by code_simp
  have typed: "\<not> list_all is_space (callerNumber new_caller_state)"
    by code_simp
  have none: "create_params (callEventIdParam manual_params) = None"
    by (simp add: manual_params_def create_params_def nullable_def)
  from blank caller_number_validation
    [of "changeCallerNumber ''  '' initial_state" create_failing_server manual_params]
  have a: "handleSubmit create_failing_server manual_params (changeCallerNumber ''  '' initial_state)
      = (changeCallerNumber ''  '' initial_state, [ToastError ''Please enter a caller number''])"
    by blast
  from typed caller_number_validation [of new_caller_state create_failing_server manual_params]
  have b: "take 1 (snd (handleSubmit create_failing_server manual_params new_caller_state)) =
        [Request (PostCalls (callData manual_params new_caller_state)
           (create_params (callEventIdParam manual_params)))]"
    by blast
  from blank typed a b none show ?thesis by simp
qed

text \<open>
  C4. The create-call requests of a submission are: none when validation fails, otherwise
  exactly the one carrying \<open>callData\<close>. The duration in it is the stopwatch counter when
  that is nonzero; otherwise the manual duration field parsed by \<open>parseInt\<close> when the
  parse is a truthy number; otherwise 0. It is always a number.
\<close>

theorem duration_sent:
  "filter is_create (requests_of (snd (handleSubmit net p s))) =
     (if trim (callerNumber s) = [] then []
      else [PostCalls (callData p s) (create_params (callEventIdParam p))])
   \<and> duration (callData p s) =
     (if timerSeconds s \<noteq> 0 then JNum (int (timerSeconds s))
      else if truthy (parseInt (duration_st s)) then parseInt (duration_st s)
      else JNum 0)
   \<and> (\<exists>k. duration (callData p s) = JNum k)"
  using handleSubmit_creates [of net p s] duration_callData [of p s] duration_is_number [of p s]
  by blast

theorem duration_sent_witness:
  "duration (callData manual_params new_caller_state) = JNum 125
   \<and> duration (callData redirect_params resolved_call) = JNum 2
   \<and> duration (callData manual_params (setDuration ''abc'' new_caller_state)) = JNum 0"
proof -
  have a: "timerSeconds new_caller_state = 0" "parseInt (duration_st new_caller_state) = JNum 125"
    by code_simp+
  have b: "timerSeconds resolved_call = 2" by code_simp
  have c: "timerSeconds (setDuration ''abc'' new_caller_state) = 0"
    "parseInt (duration_st (setDuration ''abc'' new_caller_state)) = JNaN"
    by code_simp+
  from duration_sent [of ok_server manual_params new_caller_state] a
  have 1: "duration (callData manual_params new_caller_state) = JNum 125" by simp
  from duration_sent [of ok_server redirect_params resolved_call] b
  have 2: "duration (callData redirect_params resolved_call) = JNum 2" by simp
  from duration_sent [of ok_server manual_params "setDuration ''abc'' new_caller_state"] c
  have 3: "duration (callData manual_params (setDuration ''abc'' new_caller_state)) = JNum 0" by simp
  from 1 2 3 show ?thesis by simp
qed

text \<open>
  C3, as amended. In the create-call request of a submission, \<open>contact_id\<close> is the id of
  the resolved existing contact when there is one and its id is truthy; otherwise it is the
  \<open>contact\<close> entry parameter when that is present and non-empty; it is \<open>null\<close> only when
  neither holds. The request carries the correlation parameter \<open>call_event_id\<close> exactly
  when a non-empty event id was among the entry parameters, and then with that id.
\<close>

theorem contact_id_sent:
  "filter is_create (requests_of (snd (handleSubmit net p s))) =
     (if trim (callerNumber s) = [] then []
      else [PostCalls (callData p s) (create_params (callEventIdParam p))])
   \<and> contact_id (callData p s) =
     (case existingContact s of
        Some c \<Rightarrow>
          if truthy (id_contact c) then id_contact c
          else (case contactIdParam p of
                  None \<Rightarrow> JNull | Some cid \<Rightarrow> if cid \<noteq> [] then JStr cid else JNull)
      | None \<Rightarrow>
          (case contactIdParam p of
             None \<Rightarrow> JNull | Some cid \<Rightarrow> if cid \<noteq> [] then JStr cid else JNull))
   \<and> create_params (callEventIdParam p) =
     (case callEventIdParam p of None \<Rightarrow> None | Some ev \<Rightarrow> if ev \<noteq> [] then Some ev else None)"
proof -
  have "contact_id (callData p s) =
     (case existingContact s of
        Some c \<Rightarrow>
          if truthy (id_contact c) then id_contact c
          else (case contactIdParam p of
                  None \<Rightarrow> JNull | Some cid \<Rightarrow> if cid \<noteq> [] then JStr cid else JNull)
      | None \<Rightarrow>
          (case contactIdParam p of
             None \<Rightarrow> JNull | Some cid \<Rightarrow> if cid \<noteq> [] then JStr cid else JNull))"
    by (simp add: callData_def existingContact_id_def js_or_def nullable_def split: option.splits)
  with handleSubmit_creates [of net p s] create_params_cases [of "callEventIdParam p"]
  show ?thesis by blast
qed

text \<open>
  The redirected call whose contact was fetched sends that contact's id and the event id;
  the manual entry with no contact and no parameter sends \<open>null\<close>.
\<close>

theorem contact_id_sent_witness:
  "contact_id (callData redirect_params resolved_call) = JStr ''42''
   \<and> contact_id (callData manual_params new_caller_state) = JNull
   \<and> filter is_create (requests_of (snd (handleSubmit ok_server redirect_params resolved_call)))
       = [PostCalls (callData redirect_params resolved_call) (Some ''900'')]"
proof -
  have a: "existingContact resolved_call = Some \<lparr>id_contact = JStr ''42'', name_contact = Some ''Ada''\<rparr>"
    "trim (callerNumber resolved_call) \<noteq> []"
    "callEventIdParam redirect_params = Some ''900''"
    by code_simp+
  have b: "existingContact new_caller_state = None" "contactIdParam manual_params = None"
    by code_simp+
  from contact_id_sent [of ok_server redirect_params resolved_call] a
  have 1: "contact_id (callData redirect_params resolved_call) = JStr ''42''"
    "filter is_create (requests_of (snd (handleSubmit ok_server redirect_params resolved_call)))
       = [PostCalls (callData redirect_params resolved_call) (Some ''900'')]"
    by simp_all
  from contact_id_sent [of ok_server manual_params new_caller_state] b
  have 2: "contact_id (callData manual_params new_caller_state) = JNull" by simp
  from 1 2 show ?thesis by simp
qed

text \<open>
  The claim as first stated, \<open>contact_id\<close> is \<open>null\<close> whenever no contact was resolved,
  fails for the redirected entry \<open>contact=42\<close> whose contact could not be fetched:
  resolution has ended not-found, no contact is stored, and the request carries \<open>''42''\<close>.
\<close>

theorem contact_id_sent_counterexample:
  "contactFound unresolved_call = Some False
   \<and> existingContact unresolved_call = None
   \<and> requests_of (snd (handleSubmit ok_server redirect_params unresolved_call)) =
       [PostCalls (callData redirect_params unresolved_call) (Some ''900''), PutMarkProcessed ''900'']
   \<and> contact_id (callData redirect_params unresolved_call) = JStr ''42''
   \<and> contact_id (callData redirect_params unresolved_call) \<noteq> JNull"
  by code_simp

text \<open>
  C5. For a submission whose contact resolution ended not-found: when none of
  name, email, address and company was supplied, no contact-update request is issued; when
  at least one was supplied, exactly one contact-update request is issued, directed at the
  \<open>contact_id\<close> returned by the create-call response (\<open>resp\<close>, the answer to the
  create-call request that the submission issued).
\<close>

theorem contact_update_issued:
  assumes "contactFound s = Some False"
  shows "(newContactName s = [] \<and> newContactEmail s = [] \<and> newContactAddress s = []
            \<and> newContactCompany s = [] \<longrightarrow>
          filter is_update (requests_of (snd (handleSubmit net p s))) = [])
       \<and> ((newContactName s \<noteq> [] \<or> newContactEmail s \<noteq> [] \<or> newContactAddress s \<noteq> []
              \<or> newContactCompany s \<noteq> [])
            \<and> trim (callerNumber s) \<noteq> []
            \<and> calls_create net (callData p s) (create_params (callEventIdParam p)) = Inr resp \<longrightarrow>
          filter is_update (requests_of (snd (handleSubmit net p s))) =
            [PutContact (contact_id_created resp) (update_data s)])"
  using assms
  by (simp add: handleSubmit_requests extra_info_given_iff split: sum.splits option.splits)

text \<open>
  With a name typed, the update goes to the id the create call returned; with nothing
  typed, there is no update.
\<close>

theorem contact_update_issued_witness:
  "contactFound new_caller_call = Some False
   \<and> filter is_update (requests_of (snd (handleSubmit ok_server new_caller_redirect new_caller_call)))
       = [PutContact (JStr ''77'') (update_data new_caller_call)]
   \<and> contactFound unresolved_call = Some False
   \<and> filter is_update (requests_of (snd (handleSubmit ok_server redirect_params unresolved_call))) = []"
proof -
  have nf: "contactFound new_caller_call = Some False" by code_simp
  have given: "newContactName new_caller_call \<noteq> []" "trim (callerNumber new_caller_call) \<noteq> []"
    by code_simp+
  have created: "calls_create ok_server (callData new_caller_redirect new_caller_call)
      (create_params (callEventIdParam new_caller_redirect)) = Inr \<lparr>contact_id_created = JStr ''77''\<rparr>"
    by code_simp
  from contact_update_issued [OF nf, of ok_server new_caller_redirect "\<lparr>contact_id_created = JStr ''77''\<rparr>"]
    given created
  have 1: "filter is_update (requests_of (snd (handleSubmit ok_server new_caller_redirect new_caller_call)))
       = [PutContact (JStr ''77'') (update_data new_caller_call)]"
    by simp
  have nf2: "contactFound unresolved_call = Some False" by code_simp
  have blank: "newContactName unresolved_call = []" "newContactEmail unresolved_call = []"
    "newContactAddress unresolved_call = []" "newContactCompany unresolved_call = []"
    by code_simp+
  from contact_update_issued [OF nf2, of ok_server redirect_params] blank
  have 2: "filter is_update (requests_of (snd (handleSubmit ok_server redirect_params unresolved_call))) = []"
    by simp
  from nf nf2 1 2 show ?thesis by simp
qed

lemma handleSubmit_ok:
  assumes "trim (callerNumber s) \<noteq> []"
    and "calls_create net (callData p s) (create_params (callEventIdParam p)) = Inr resp"
    and "\<not> (contactFound s = Some False \<and> extra_info_given s)
         \<or> contacts_update net (contact_id_created resp) (update_data s) = Inr ()"
  shows "snd (handleSubmit net p s) =
     Request (PostCalls (callData p s) (create_params (callEventIdParam p)))
        # (if contactFound s = Some False \<and> extra_info_given s
           then [Request (PutContact (contact_id_created resp) (update_data s))] else [])
        @ (case create_params (callEventIdParam p) of
             None \<Rightarrow> []
           | Some ev \<Rightarrow> Request (PutMarkProcessed ev)
               # (case freepbx_markProcessed net ev of
                    Inl err \<Rightarrow> interceptor_effects err
                      @ [ConsoleError ''Failed to mark call event as processed:'']
                  | Inr ok \<Rightarrow> []))
        @ [ToastSuccess ''Call logged successfully!'', Navigate ''/calls'']"
  using assms(1) by (simp add: handleSubmit_def submit_try_ok [OF assms(2,3)])

lemma visible_interceptor:
  "visible (interceptor_effects error) = interceptor_effects error"
  by (simp add: visible_def interceptor_effects_def)

lemma visible_append: "visible (xs @ ys) = visible xs @ visible ys"
  by (simp add: visible_def)

text \<open>What the user sees of a submission whose create call and contact update went through.\<close>

lemma visible_ok:
  assumes "trim (callerNumber s) \<noteq> []"
    and "calls_create net (callData p s) (create_params (callEventIdParam p)) = Inr resp"
    and "\<not> (contactFound s = Some False \<and> extra_info_given s)
         \<or> contacts_update net (contact_id_created resp) (update_data s) = Inr ()"
  shows "visible (snd (handleSubmit net p s)) =
     (case create_params (callEventIdParam p) of
        None \<Rightarrow> []
      | Some ev \<Rightarrow>
          (case freepbx_markProcessed net ev of
             Inl err \<Rightarrow> interceptor_effects err
           | Inr ok \<Rightarrow> []))
     @ [ToastSuccess ''Call logged successfully!'', Navigate ''/calls'']"
proof -
  have "visible (snd (handleSubmit net p s)) =
     visible (case create_params (callEventIdParam p) of
             None \<Rightarrow> []
           | Some ev \<Rightarrow> Request (PutMarkProcessed ev)
               # (case freepbx_markProcessed net ev of
                    Inl err \<Rightarrow> interceptor_effects err
                      @ [ConsoleError ''Failed to mark call event as processed:'']
                  | Inr ok \<Rightarrow> []))
     @ [ToastSuccess ''Call logged successfully!'', Navigate ''/calls'']"
    by (simp add: handleSubmit_ok [OF assms] visible_append) (simp add: visible_def)
  also have "visible (case create_params (callEventIdParam p) of
             None \<Rightarrow> []
           | Some ev \<Rightarrow> Request (PutMarkProcessed ev)
               # (case freepbx_markProcessed net ev of
                    Inl err \<Rightarrow> interceptor_effects err
                      @ [ConsoleError ''Failed to mark call event as processed:'']
                  | Inr ok \<Rightarrow> [])) =
     (case create_params (callEventIdParam p) of
        None \<Rightarrow> []
      | Some ev \<Rightarrow>
          (case freepbx_markProcessed net ev of
             Inl err \<Rightarrow> interceptor_effects err
           | Inr ok \<Rightarrow> []))"
    by (simp add: visible_def interceptor_effects_def split: option.splits sum.splits)
  finally show ?thesis .
qed

text \<open>
  C1, as amended. For a submission whose create-call request succeeds and whose follow-up
  contact update is either not issued or succeeds, the success toast and the navigation
  to \<open>/calls\<close> happen whatever the mark-processed request answers. When that request does
  not fail with status 401, they are all the user sees. When it fails with status 401, the
  response interceptor of the client first removes \<open>token\<close> and \<open>user\<close> from storage and
  assigns \<open>/login\<close> to the location. When the entry parameters carry a non-empty event id,
  the requests are the create call, the optional contact update and then exactly one
  mark-processed request for that id.
\<close>

theorem submission_navigates:
  assumes valid: "trim (callerNumber s) \<noteq> []"
    and created: "calls_create net (callData p s) (create_params (callEventIdParam p)) = Inr resp"
    and updated: "\<not> (contactFound s = Some False \<and> extra_info_given s)
         \<or> contacts_update net (contact_id_created resp) (update_data s) = Inr ()"
  shows "((\<forall>ev err. callEventIdParam p = Some ev \<and> ev \<noteq> []
              \<and> freepbx_markProcessed net ev = Inl err \<longrightarrow> status_code err \<noteq> Some 401) \<longrightarrow>
           visible (snd (handleSubmit net p s)) =
             [ToastSuccess ''Call logged successfully!'', Navigate ''/calls''])
       \<and> (\<forall>ev err. callEventIdParam p = Some ev \<and> ev \<noteq> []
              \<and> freepbx_markProcessed net ev = Inl err \<and> status_code err = Some 401 \<longrightarrow>
           visible (snd (handleSubmit net p s)) =
             [RemoveItem ''token'', RemoveItem ''user'', AssignLocation ''/login'',
              ToastSuccess ''Call logged successfully!'', Navigate ''/calls''])
       \<and> (\<forall>ev. callEventIdParam p = Some ev \<and> ev \<noteq> [] \<longrightarrow>
             requests_of (snd (handleSubmit net p s)) =
               PostCalls (callData p s) (Some ev)
                 # (if contactFound s = Some False \<and> extra_info_given s
                    then [PutContact (contact_id_created resp) (update_data s)] else [])
                 @ [PutMarkProcessed ev]
             \<and> filter is_mark (requests_of (snd (handleSubmit net p s))) = [PutMarkProcessed ev])"
proof -
  note v = visible_ok [OF valid created updated]
  have quiet: "(\<forall>ev err. callEventIdParam p = Some ev \<and> ev \<noteq> []
              \<and> freepbx_markProcessed net ev = Inl err \<longrightarrow> status_code err \<noteq> Some 401) \<longrightarrow>
           visible (snd (handleSubmit net p s)) =
             [ToastSuccess ''Call logged successfully!'', Navigate ''/calls'']"
    by (auto simp: v create_params_cases interceptor_effects_def split: option.splits sum.splits)
  have teardown: "\<forall>ev err. callEventIdParam p = Some ev \<and> ev \<noteq> []
              \<and> freepbx_markProcessed net ev = Inl err \<and> status_code err = Some 401 \<longrightarrow>
           visible (snd (handleSubmit net p s)) =
             [RemoveItem ''token'', RemoveItem ''user'', AssignLocation ''/login'',
              ToastSuccess ''Call logged successfully!'', Navigate ''/calls'']"
    by (auto simp: v create_params_cases interceptor_effects_def)
  have r: "\<forall>ev. callEventIdParam p = Some ev \<and> ev \<noteq> [] \<longrightarrow>
             requests_of (snd (handleSubmit net p s)) =
               PostCalls (callData p s) (Some ev)
                 # (if contactFound s = Some False \<and> extra_info_given s
                    then [PutContact (contact_id_created resp) (update_data s)] else [])
                 @ [PutMarkProcessed ev]
             \<and> filter is_mark (requests_of (snd (handleSubmit net p s))) = [PutMarkProcessed ev]"
    using valid created updated
    by (auto simp: handleSubmit_requests create_params_cases)
  from quiet teardown r show ?thesis by blast
qed

text \<open>
  A new caller with a name typed: on a remote side where mark-processed fails with status
  500 the three requests are issued in order and the user sees success and the navigation;
  where it fails with status 401 the session teardown comes first.
\<close>

theorem submission_navigates_witness:
  "trim (callerNumber new_caller_call) \<noteq> []
   \<and> calls_create mark_failing_server (callData new_caller_redirect new_caller_call)
        (create_params (callEventIdParam new_caller_redirect)) = Inr \<lparr>contact_id_created = JStr ''77''\<rparr>
   \<and> contacts_update mark_failing_server (JStr ''77'') (update_data new_caller_call) = Inr ()
   \<and> freepbx_markProcessed mark_failing_server ''900'' = Inl server_error
   \<and> visible (snd (handleSubmit mark_failing_server new_caller_redirect new_caller_call)) =
        [ToastSuccess ''Call logged successfully!'', Navigate ''/calls'']
   \<and> requests_of (snd (handleSubmit mark_failing_server new_caller_redirect new_caller_call)) =
        [PostCalls (callData new_caller_redirect new_caller_call) (Some ''900''),
         PutContact (JStr ''77'') (update_data new_caller_call),
         PutMarkProcessed ''900'']
   \<and> freepbx_markProcessed mark_unauthorized_server ''900'' = Inl unauthorized
   \<and> visible (snd (handleSubmit mark_unauthorized_server new_caller_redirect new_caller_call)) =
        [RemoveItem ''token'', RemoveItem ''user'', AssignLocation ''/login'',
         ToastSuccess ''Call logged successfully!'', Navigate ''/calls'']"
proof -
  have valid: "trim (callerNumber new_caller_call) \<noteq> []" by code_simp
  have created: "calls_create mark_failing_server (callData new_caller_redirect new_caller_call)
        (create_params (callEventIdParam new_caller_redirect)) = Inr \<lparr>contact_id_created = JStr ''77''\<rparr>"
    by code_simp
  have upd: "contacts_update mark_failing_server (JStr ''77'') (update_data new_caller_call) = Inr ()"
    by code_simp
  have updated: "\<not> (contactFound new_caller_call = Some False \<and> extra_info_given new_caller_call)
     \<or> contacts_update mark_failing_server (contact_id_created \<lparr>contact_id_created = JStr ''77''\<rparr>)
          (update_data new_caller_call) = Inr ()"
    using upd by simp
  have mark: "freepbx_markProcessed mark_failing_server ev = Inl server_error" for ev
    by (simp add: mark_failing_server_def)
  have status: "status_code server_error \<noteq> Some 401" by (simp add: server_error_def)
  have ev: "callEventIdParam new_caller_redirect = Some ''900''" by code_simp
  have needs: "contactFound new_caller_call = Some False \<and> extra_info_given new_caller_call"
    by code_simp
  from submission_navigates [OF valid created updated] ev needs mark status
  have 1: "visible (snd (handleSubmit mark_failing_server new_caller_redirect new_caller_call)) =
        [ToastSuccess ''Call logged successfully!'', Navigate ''/calls'']"
    "requests_of (snd (handleSubmit mark_failing_server new_caller_redirect new_caller_call)) =
        [PostCalls (callData new_caller_redirect new_caller_call) (Some ''900''),
         PutContact (JStr ''77'') (update_data new_caller_call),
         PutMarkProcessed ''900'']"
    by simp_all
  have created': "calls_create mark_unauthorized_server (callData new_caller_redirect new_caller_call)
        (create_params (callEventIdParam new_caller_redirect)) = Inr \<lparr>contact_id_created = JStr ''77''\<rparr>"
    by code_simp
  have updated': "\<not> (contactFound new_caller_call = Some False \<and> extra_info_given new_caller_call)
     \<or> contacts_update mark_unauthorized_server (contact_id_created \<lparr>contact_id_created = JStr ''77''\<rparr>)
          (update_data new_caller_call) = Inr ()"
    by (simp add: mark_unauthorized_server_def ok_server_def)
  have mark': "freepbx_markProcessed mark_unauthorized_server ''900'' = Inl unauthorized"
    by (simp add: mark_unauthorized_server_def)
  have status': "status_code unauthorized = Some 401" by (simp add: unauthorized_def)
  from submission_navigates [OF valid created' updated'] ev mark' status'
  have 2: "visible (snd (handleSubmit mark_unauthorized_server new_caller_redirect new_caller_call)) =
        [RemoveItem ''token'', RemoveItem ''user'', AssignLocation ''/login'',
         ToastSuccess ''Call logged successfully!'', Navigate ''/calls'']"
    by simp
  from valid created upd mark [of "''900''"] 1 mark' 2 show ?thesis by simp
qed

text \<open>
  The claim as first stated fails in two ways. When mark-processed fails with status 401,
  the failure does affect navigation: the interceptor clears the session and assigns
  \<open>/login\<close> to the location, which the same submission on a remote side that answers
  does not do. When the contact update fails after a successful create call, the error is
  caught by the outer \<open>catch\<close>: there is no navigation, the toast is the error, and
  mark-processed is never issued.
\<close>

theorem submission_navigates_counterexample:
  "freepbx_markProcessed mark_unauthorized_server ''900'' = Inl unauthorized
   \<and> snd (handleSubmit mark_unauthorized_server redirect_params resolved_call) =
       [Request (PostCalls (callData redirect_params resolved_call) (Some ''900'')),
        Request (PutMarkProcessed ''900''),
        RemoveItem ''token'', RemoveItem ''user'', AssignLocation ''/login'',
        ConsoleError ''Failed to mark call event as processed:'',
        ToastSuccess ''Call logged successfully!'', Navigate ''/calls'']
   \<and> visible (snd (handleSubmit ok_server redirect_params resolved_call)) =
       [ToastSuccess ''Call logged successfully!'', Navigate ''/calls'']
   \<and> visible (snd (handleSubmit mark_unauthorized_server redirect_params resolved_call))
       \<noteq> visible (snd (handleSubmit ok_server redirect_params resolved_call))
   \<and> calls_create update_failing_server (callData new_caller_redirect new_caller_call) (Some ''900'')
       = Inr \<lparr>contact_id_created = JStr ''77''\<rparr>
   \<and> snd (handleSubmit update_failing_server new_caller_redirect new_caller_call) =
       [Request (PostCalls (callData new_caller_redirect new_caller_call) (Some ''900'')),
        Request (PutContact (JStr ''77'') (update_data new_caller_call)),
        ConsoleError ''Error logging call:'',
        ToastError ''Internal Server Error'']
   \<and> Navigate ''/calls'' \<notin> set (snd (handleSubmit update_failing_server new_caller_redirect new_caller_call))
   \<and> filter is_mark
        (requests_of (snd (handleSubmit update_failing_server new_caller_redirect new_caller_call))) = []"
  by code_simp

lemma callData_setDuration:
  "timerSeconds s \<noteq> 0 \<Longrightarrow> callData p (setDuration v s) = callData p s"
  by (simp add: callData_def setDuration_def js_or_def existingContact_id_def)

lemma setDuration_other_fields:
  "extra_info_given (setDuration v s) = extra_info_given s"
  "update_data (setDuration v s) = update_data s"
  "contactFound (setDuration v s) = contactFound s"
  "callerNumber (setDuration v s) = callerNumber s"
  by (simp_all add: setDuration_def extra_info_given_def update_data_def)

lemma submit_try_setDuration:
  "timerSeconds s \<noteq> 0 \<Longrightarrow> submit_try net p (setDuration v s) = submit_try net p s"
  by (simp add: submit_try_def callData_setDuration setDuration_other_fields cong: if_cong)

lemma handleSubmit_setDuration:
  "timerSeconds s \<noteq> 0 \<Longrightarrow>
   snd (handleSubmit net p (setDuration v s)) = snd (handleSubmit net p s)"
  by (simp add: handleSubmit_def submit_try_setDuration setDuration_other_fields
      split: prod.splits sum.splits)

text \<open>
  C6. The manual duration input is rendered exactly when the stopwatch is stopped at zero,
  which is exactly when the timer display is not rendered. When the stopwatch is running or
  shows a nonzero value, the content of the manual field has no influence on what a click
  on the submit button does; with a nonzero counter the duration sent is the counter. While
  the stopwatch is running the submit button is disabled and a click does nothing.
\<close>

theorem stopwatch_excludes_manual_duration:
  "duration_input_shown s = (\<not> timerRunning s \<and> timerSeconds s = 0)
   \<and> duration_input_shown s = (\<not> timer_display_shown s)
   \<and> (timerRunning s \<or> timerSeconds s \<noteq> 0 \<longrightarrow>
        snd (clickSubmit net p (setDuration v s)) = snd (clickSubmit net p s))
   \<and> (timerSeconds s \<noteq> 0 \<longrightarrow> duration (callData p s) = JNum (int (timerSeconds s)))
   \<and> (timerRunning s \<longrightarrow> submit_disabled s \<and> clickSubmit net p s = (s, []))"
proof -
  have a: "timerRunning s \<or> timerSeconds s \<noteq> 0 \<longrightarrow>
        snd (clickSubmit net p (setDuration v s)) = snd (clickSubmit net p s)"
  proof (cases "timerRunning s")
    case True
    then show ?thesis by (simp add: clickSubmit_def submit_disabled_def setDuration_def)
  next
    case False
    have "submit_disabled (setDuration v s) = submit_disabled s"
      by (simp add: submit_disabled_def setDuration_def)
    then show ?thesis
      using False by (auto simp: clickSubmit_def handleSubmit_setDuration)
  qed
  have b: "timerSeconds s \<noteq> 0 \<longrightarrow> duration (callData p s) = JNum (int (timerSeconds s))"
    by (simp add: duration_callData)
  have c: "timerRunning s \<longrightarrow> submit_disabled s \<and> clickSubmit net p s = (s, [])"
    by (simp add: clickSubmit_def submit_disabled_def)
  from a b c show ?thesis
    by (auto simp: duration_input_shown_def timer_display_shown_def)
qed

theorem stopwatch_excludes_manual_duration_witness:
  "timerSeconds resolved_call \<noteq> 0
   \<and> \<not> duration_input_shown resolved_call
   \<and> snd (clickSubmit ok_server redirect_params (setDuration ''999'' resolved_call))
       = snd (clickSubmit ok_server redirect_params resolved_call)
   \<and> duration (callData redirect_params resolved_call) = JNum 2
   \<and> timerRunning (toggleTimer initial_state)
   \<and> clickSubmit ok_server manual_params (toggleTimer initial_state) = (toggleTimer initial_state, [])
   \<and> duration_input_shown initial_state"
proof -
  have t: "timerSeconds resolved_call \<noteq> 0" "timerSeconds resolved_call = 2"
    "\<not> timerRunning resolved_call" by code_simp+
  have r: "timerRunning (toggleTimer initial_state)" by code_simp
  have i: "\<not> timerRunning initial_state" "timerSeconds initial_state = 0" by code_simp+
  from stopwatch_excludes_manual_duration [of resolved_call ok_server redirect_params "''999''"] t
  have 1: "\<not> duration_input_shown resolved_call"
    "snd (clickSubmit ok_server redirect_params (setDuration ''999'' resolved_call))
       = snd (clickSubmit ok_server redirect_params resolved_call)"
    "duration (callData redirect_params resolved_call) = JNum 2"
    by simp_all
  from stopwatch_excludes_manual_duration [of "toggleTimer initial_state" ok_server manual_params] r
  have 2: "clickSubmit ok_server manual_params (toggleTimer initial_state) = (toggleTimer initial_state, [])"
    by simp
  from stopwatch_excludes_manual_duration [of initial_state] i
  have 3: "duration_input_shown initial_state" by simp
  from t r 1 2 3 show ?thesis by simp
qed

section \<open>Proofs: credential and 401 handling\<close>

lemma api_request_bearer:
  assumes "localStorage b ''token'' = Some token" "token \<noteq> []"
  shows "fst (api_request b outcome) ''Authorization'' = Some (''Bearer '' @ token)"
  using assms by (simp add: api_request_def request_interceptor_def)

lemma api_request_no_token:
  assumes "localStorage b ''token'' = None"
  shows "fst (api_request b outcome) ''Authorization'' = None"
  using assms by (simp add: api_request_def request_interceptor_def default_headers_def)

lemma api_request_401:
  assumes "status_code error = Some 401"
  shows "localStorage (fst (snd (api_request b (Inl error)))) ''token'' = None
       \<and> localStorage (fst (snd (api_request b (Inl error)))) ''user'' = None
       \<and> location_href (fst (snd (api_request b (Inl error)))) = ''/login''
       \<and> snd (snd (api_request b (Inl error))) = Inl error"
  using assms by (simp add: api_request_def response_error_interceptor_def)

lemma api_request_other:
  assumes "status_code error \<noteq> Some 401"
  shows "fst (snd (api_request b (Inl error))) = b"
  using assms by (simp add: api_request_def response_error_interceptor_def)

text \<open>The interceptor's effects in a trace are the interceptor's writes to the browser.\<close>

lemma interceptor_effects_browser:
  "fold browser_effect (interceptor_effects error) b = response_error_interceptor b error"
  by (simp add: interceptor_effects_def response_error_interceptor_def)

lemma exportCSV_bearer:
  assumes "localStorage b ''token'' = Some token"
  shows "fst (exportCSV b outcome) ''Authorization'' = Some (''Bearer '' @ token)"
  using assms by (simp add: exportCSV_def)

lemma exportCSV_browser: "fst (snd (exportCSV b outcome)) = b"
  by (simp add: exportCSV_def)

text \<open>
  C2. A request through the axios instance attaches the stored token (\<open>api_request_bearer\<close>)
  and a 401 answer to it removes \<open>token\<close> and \<open>user\<close> from storage and sets the location to
  \<open>/login\<close> (\<open>api_request_401\<close>). The CSV export attaches the token by hand
  (\<open>exportCSV_bearer\<close>) but never looks at the status of the answer
  (\<open>exportCSV_browser\<close>). Evaluated for a logged-in browser and a 401 answer: the export
  leaves token, user and location as they were and hands the error body to the caller as the
  file, where the same answer to a request through the axios instance clears the token and
  redirects.
\<close>

theorem exportCSV_ignores_401:
  "fst (exportCSV logged_in_browser (Inr \<lparr>res_status = 401, res_body = ''Not authenticated''\<rparr>))
       ''Authorization'' = Some ''Bearer t0k3n''
   \<and> fst (snd (exportCSV logged_in_browser
        (Inr \<lparr>res_status = 401, res_body = ''Not authenticated''\<rparr>))) = logged_in_browser
   \<and> snd (snd (exportCSV logged_in_browser
        (Inr \<lparr>res_status = 401, res_body = ''Not authenticated''\<rparr>))) = Inr ''Not authenticated''
   \<and> localStorage logged_in_browser ''token'' = Some ''t0k3n''
   \<and> localStorage logged_in_browser ''user'' = Some ''agent-7''
   \<and> location_href logged_in_browser \<noteq> ''/login''
   \<and> localStorage (fst (snd (api_request logged_in_browser (Inl unauthorized :: http_error + unit))))
        ''token'' = None
   \<and> location_href (fst (snd (api_request logged_in_browser (Inl unauthorized :: http_error + unit))))
        = ''/login''"
  by (simp add: exportCSV_def logged_in_browser_def api_request_def response_error_interceptor_def
      unauthorized_def)

section \<open>Proofs: routes and navigation by role\<close>

lemma ProtectedRoute_no_user:
  "\<not> loading a \<Longrightarrow> user a = None \<Longrightarrow> ProtectedRoute a rr pg = NavigateTo ''/login''"
  by (simp add: ProtectedRoute_def)

lemma ProtectedRoute_wrong_role:
  "\<not> loading a \<Longrightarrow> user a = Some u \<Longrightarrow> role u \<notin> set roles \<Longrightarrow>
   ProtectedRoute a (Some roles) pg = NavigateTo ''/dashboard''"
  by (simp add: ProtectedRoute_def)

lemma admin_item_visible_iff: "admin_item_visible r = (r = Some ''admin'')"
  by (cases "r = Some ''admin''") (simp_all add: admin_item_visible_def getNavItems_def)

text \<open>
  C8, as amended. Once the session has been restored (\<open>loading\<close> is false), every protected
  route of the route table redirects to \<open>/login\<close> when no user is authenticated, and to
  \<open>/dashboard\<close> when the route requires roles and the user's role is not among them. The
  two admin routes require the role \<open>admin\<close>, so they redirect every other role to the
  dashboard. The navigation item \<open>Admin\<close> is among the items exactly for the role \<open>admin\<close>.
\<close>

theorem route_guard_by_role:
  "(\<forall>(pattern, el) \<in> set AppRoutes. \<forall>rr pg. el = Protected rr pg \<longrightarrow>
      (\<not> loading a \<and> user a = None \<longrightarrow> render a el = NavigateTo ''/login'')
      \<and> (\<forall>u roles. \<not> loading a \<and> user a = Some u \<and> rr = Some roles \<and> role u \<notin> set roles \<longrightarrow>
            render a el = NavigateTo ''/dashboard''))
   \<and> map_of AppRoutes ''/admin'' = Some (Protected (Some [''admin'']) AdminPage)
   \<and> map_of AppRoutes ''/admin/*'' = Some (Protected (Some [''admin'']) AdminPage)
   \<and> (\<forall>u. \<not> loading a \<and> user a = Some u \<and> role u \<noteq> ''admin'' \<longrightarrow>
         render a (Protected (Some [''admin'']) AdminPage) = NavigateTo ''/dashboard'')
   \<and> admin_item_visible r = (r = Some ''admin'')"
proof -
  have guard: "\<forall>(pattern, el) \<in> set AppRoutes. \<forall>rr pg. el = Protected rr pg \<longrightarrow>
      (\<not> loading a \<and> user a = None \<longrightarrow> render a el = NavigateTo ''/login'')
      \<and> (\<forall>u roles. \<not> loading a \<and> user a = Some u \<and> rr = Some roles \<and> role u \<notin> set roles \<longrightarrow>
            render a el = NavigateTo ''/dashboard'')"
    by (auto simp: ProtectedRoute_no_user ProtectedRoute_wrong_role)
  have admin: "map_of AppRoutes ''/admin'' = Some (Protected (Some [''admin'']) AdminPage)"
    "map_of AppRoutes ''/admin/*'' = Some (Protected (Some [''admin'']) AdminPage)"
    by (simp_all add: AppRoutes_def)
  have other: "\<forall>u. \<not> loading a \<and> user a = Some u \<and> role u \<noteq> ''admin'' \<longrightarrow>
         render a (Protected (Some [''admin'']) AdminPage) = NavigateTo ''/dashboard''"
    by (simp add: ProtectedRoute_wrong_role)
  from guard admin other admin_item_visible_iff [of r] show ?thesis by blast
qed

text \<open>
  Nobody logged in on \<open>/calls\<close>, an agent on \<open>/admin\<close>, and the item for an admin and for a
  supervisor.
\<close>

theorem route_guard_by_role_witness:
  "(''/calls'', Protected None CallsListPage) \<in> set AppRoutes
   \<and> render \<lparr>user = None, loading = False\<rparr> (Protected None CallsListPage) = NavigateTo ''/login''
   \<and> (''/admin'', Protected (Some [''admin'']) AdminPage) \<in> set AppRoutes
   \<and> render \<lparr>user = Some \<lparr>role = ''agent''\<rparr>, loading = False\<rparr>
        (Protected (Some [''admin'']) AdminPage) = NavigateTo ''/dashboard''
   \<and> admin_item_visible (Some ''admin'') \<and> \<not> admin_item_visible (Some ''supervisor'')"
proof -
  have m: "(''/calls'', Protected None CallsListPage) \<in> set AppRoutes"
    "(''/admin'', Protected (Some [''admin'']) AdminPage) \<in> set AppRoutes"
    by (simp_all add: AppRoutes_def)
  from route_guard_by_role [of "\<lparr>user = None, loading = False\<rparr>" "Some ''admin''"] m(1)
  have 1: "render \<lparr>user = None, loading = False\<rparr> (Protected None CallsListPage) = NavigateTo ''/login''"
    by fastforce
  from route_guard_by_role [of "\<lparr>user = Some \<lparr>role = ''agent''\<rparr>, loading = False\<rparr>" "Some ''supervisor''"]
  have 2: "render \<lparr>user = Some \<lparr>role = ''agent''\<rparr>, loading = False\<rparr>
        (Protected (Some [''admin'']) AdminPage) = NavigateTo ''/dashboard''"
    "\<not> admin_item_visible (Some ''supervisor'')"
    by simp_all
  from route_guard_by_role [of "\<lparr>user = None, loading = False\<rparr>" "Some ''admin''"]
  have 3: "admin_item_visible (Some ''admin'')" by simp
  from m 1 2 3 show ?thesis by simp
qed

text \<open>
  The claim as first stated fails while the session is being restored: no user is present,
  and the protected route renders the spinner, not the redirect to \<open>/login\<close>.
\<close>

theorem route_guard_by_role_counterexample:
  "user \<lparr>user = None, loading = True\<rparr> = None
   \<and> (''/dashboard'', Protected None DashboardPage) \<in> set AppRoutes
   \<and> render \<lparr>user = None, loading = True\<rparr> (Protected None DashboardPage) = Spinner
   \<and> render \<lparr>user = None, loading = True\<rparr> (Protected None DashboardPage) \<noteq> NavigateTo ''/login''"
  by (simp add: AppRoutes_def ProtectedRoute_def)

section \<open>Proofs: password reset\<close>

lemma handleResetPassword_selectedUser:
  "selectedUser (fst (handleResetPassword net s)) = selectedUser s"
  by (simp add: handleResetPassword_def adminAPI_resetPassword_def api_call_def
      requests_of_append requests_of_interceptor split: option.splits sum.splits)

lemma handleResetPassword_open:
  "isResetPasswordOpen (fst (handleResetPassword net s)) \<Longrightarrow> isResetPasswordOpen s"
  by (simp add: handleResetPassword_def adminAPI_resetPassword_def api_call_def
      split: option.splits sum.splits if_splits)

lemma reachable_selected:
  "reachable s \<Longrightarrow> isResetPasswordOpen s \<Longrightarrow> selectedUser s \<noteq> None"
proof (induction rule: reachable.induct)
  case init
  then show ?case by (simp add: initial_admin_def)
next
  case (confirm s net)
  then show ?case
    using handleResetPassword_open [of net s] by (simp add: handleResetPassword_selectedUser)
qed (simp_all add: openEditModal_def openDeleteModal_def openResetPasswordModal_def
      changeNewPassword_def closeResetPassword_def)

lemma handleResetPassword_requests:
  "requests_of (snd (handleResetPassword net s)) =
     (if length (newPassword s) < 6 then []
      else (case selectedUser s of
              None \<Rightarrow> []
            | Some u \<Rightarrow> [PostResetPassword (id_user u) (newPassword s)]))"
  by (simp add: handleResetPassword_def adminAPI_resetPassword_def api_call_def
      requests_of_append requests_of_interceptor split: option.splits sum.splits)

text \<open>
  C9. In every state the user can reach with the reset dialog open, the confirm handler
  issues the reset-password request, for the selected user and with the entered password,
  when the password has at least 6 characters; with a shorter password it shows the local
  error and issues nothing. So a request is issued if and only if the length is at least 6.
\<close>

theorem reset_password_min_length:
  assumes "reachable s" "isResetPasswordOpen s"
  shows "(6 \<le> length (newPassword s) \<longrightarrow>
           (\<exists>u. selectedUser s = Some u
              \<and> requests_of (snd (handleResetPassword net s)) =
                  [PostResetPassword (id_user u) (newPassword s)]))
       \<and> (length (newPassword s) < 6 \<longrightarrow>
            handleResetPassword net s = (s, [ToastError ''Password must be at least 6 characters''])
            \<and> requests_of (snd (handleResetPassword net s)) = [])
       \<and> (requests_of (snd (handleResetPassword net s)) \<noteq> []) = (6 \<le> length (newPassword s))"
proof -
  from reachable_selected [OF assms] obtain u where u: "selectedUser s = Some u" by auto
  have short: "length (newPassword s) < 6 \<longrightarrow>
            handleResetPassword net s = (s, [ToastError ''Password must be at least 6 characters''])"
    by (simp add: handleResetPassword_def)
  from u short show ?thesis
    by (auto simp: handleResetPassword_requests)
qed

theorem reset_password_min_length_witness:
  "reachable (changeNewPassword ''secret1'' (openResetPasswordModal \<lparr>id_user = JNum 7\<rparr> initial_admin))
   \<and> requests_of (snd (handleResetPassword ok_server
        (changeNewPassword ''secret1'' (openResetPasswordModal \<lparr>id_user = JNum 7\<rparr> initial_admin))))
       = [PostResetPassword (JNum 7) ''secret1'']
   \<and> reachable (changeNewPassword ''12345'' (openResetPasswordModal \<lparr>id_user = JNum 7\<rparr> initial_admin))
   \<and> snd (handleResetPassword ok_server
        (changeNewPassword ''12345'' (openResetPasswordModal \<lparr>id_user = JNum 7\<rparr> initial_admin)))
       = [ToastError ''Password must be at least 6 characters'']"
proof -
  have r: "reachable (changeNewPassword pw (openResetPasswordModal \<lparr>id_user = JNum 7\<rparr> initial_admin))"
    for pw
    by (intro reachable.type reachable.reset reachable.init)
  have opened: "isResetPasswordOpen
      (changeNewPassword pw (openResetPasswordModal \<lparr>id_user = JNum 7\<rparr> initial_admin))" for pw
    by (simp add: changeNewPassword_def openResetPasswordModal_def)
  have sel: "selectedUser
      (changeNewPassword pw (openResetPasswordModal \<lparr>id_user = JNum 7\<rparr> initial_admin))
      = Some \<lparr>id_user = JNum 7\<rparr>"
    "newPassword (changeNewPassword pw (openResetPasswordModal \<lparr>id_user = JNum 7\<rparr> initial_admin)) = pw"
    for pw
    by (simp_all add: changeNewPassword_def openResetPasswordModal_def)
  from reset_password_min_length [OF r opened, of "''secret1''" ok_server] sel [of "''secret1''"]
  have 1: "requests_of (snd (handleResetPassword ok_server
        (changeNewPassword ''secret1'' (openResetPasswordModal \<lparr>id_user = JNum 7\<rparr> initial_admin))))
       = [PostResetPassword (JNum 7) ''secret1'']"
    by simp
  from reset_password_min_length [OF r opened, of "''12345''" ok_server] sel [of "''12345''"]
  have 2: "snd (handleResetPassword ok_server
        (changeNewPassword ''12345'' (openResetPasswordModal \<lparr>id_user = JNum 7\<rparr> initial_admin)))
       = [ToastError ''Password must be at least 6 characters'']"
    by simp
  from r [of "''secret1''"] r [of "''12345''"] 1 2 show ?thesis by simp
qed

end
